theory Spec2Isabelle
  imports Main "HOL-Library.AList" "HOL-Library.Sublist"
begin

section \<open>The customer-service registry (internal/domain/customer\_service)\<close>

text \<open>
  The registry of \<^verbatim>\<open>service.go\<close> keeps four Go maps from string ids to pointers
  (\<^verbatim>\<open>*User\<close>, \<^verbatim>\<open>*CSStaff\<close>, \<^verbatim>\<open>*CSGroup\<close>, \<^verbatim>\<open>*Session\<close>) and mutates the
  objects behind the pointers. The same \<^verbatim>\<open>*Session\<close> is stored in the global
  table and in a staff member's \<^verbatim>\<open>Sessions\<close> map, the same \<^verbatim>\<open>*CSStaff\<close> in the
  staff table and in a group's \<^verbatim>\<open>Members\<close> map. The embedding therefore has an
  explicit store: a pointer is an address, every struct type has its own heap (a total
  function from addresses to struct values; cells at or above \<open>nextPtr\<close> are not
  allocated yet), and \<^verbatim>\<open>&T{...}\<close> takes the address \<open>nextPtr\<close>.

  Every public method holds \<^verbatim>\<open>cs.mu\<close> for its whole body, so the methods are modelled as
  atomic state transformers and the mutex fields are left out.
\<close>

subsection \<open>model.go\<close>

type_synonym ptr = nat

text \<open>A \<^verbatim>\<open>time.Time\<close> is its wall-clock reading in nanoseconds since the Unix epoch.\<close>

type_synonym time = nat

text \<open>A \<^verbatim>\<open>*websocket.Conn\<close> is an opaque handle; \<open>None\<close> is the nil pointer.\<close>

type_synonym conn = nat

datatype UserStatus = UserStatusOffline | UserStatusOnline | UserStatusInSession

datatype SessionStatus = SessionStatusWaiting | SessionStatusActive | SessionStatusClosed

datatype MessageType = MessageTypeText | MessageTypeImage | MessageTypeSystem

record User =
  User_ID :: string
  User_Name :: string
  User_Status :: UserStatus
  User_Conn :: "conn option"
  User_CreateAt :: time
  User_SessionID :: string

record CSGroup =
  Group_ID :: string
  Group_Name :: string
  Group_Members :: "string \<rightharpoonup> ptr"

text \<open>
  \<^verbatim>\<open>CSStaff.Sessions\<close> is the one Go map the registry iterates over (in
  \<^verbatim>\<open>DisconnectStaff\<close>), so it is an association list; \<open>map_of\<close> reads it,
  \<open>AList.update\<close> is \<^verbatim>\<open>m[k] = v\<close> and \<open>AList.delete\<close> is \<^verbatim>\<open>delete(m, k)\<close>.
\<close>

record CSStaff =
  Staff_ID :: string
  Staff_Name :: string
  Staff_GroupID :: string
  Staff_Status :: UserStatus
  Staff_Conn :: "conn option"
  Staff_Sessions :: "(string \<times> ptr) list"

record Message =
  Message_ID :: string
  Message_SessionID :: string
  Message_FromID :: string
  Message_ToID :: string
  Message_Content :: string
  Message_Type :: MessageType
  Message_CreateAt :: time

text \<open>
  A \<^verbatim>\<open>*Message\<close> is written only before it is appended to \<^verbatim>\<open>Session.Messages\<close>,
  so the slice of pointers is a list of message values.
\<close>

record Session =
  Session_ID :: string
  Session_UserID :: string
  Session_StaffID :: string
  Session_Status :: SessionStatus
  Session_CreateAt :: time
  Session_UpdateAt :: time
  Session_Messages :: "Message list"

subsection \<open>service.go: errors and the registry\<close>

datatype error =
  ErrUserNotFound | ErrStaffNotFound | ErrSessionNotFound | ErrGroupNotFound
  | ErrInvalidOperation

text \<open>
  \<open>closedConns\<close> logs the connections on which \<^verbatim>\<open>Close()\<close> was called, in call
  order: the effect of the registry on the transport layer.
\<close>

record CustomerService =
  users :: "string \<rightharpoonup> ptr"
  staffs :: "string \<rightharpoonup> ptr"
  groups :: "string \<rightharpoonup> ptr"
  sessions :: "string \<rightharpoonup> ptr"
  userObj :: "ptr \<Rightarrow> User"
  staffObj :: "ptr \<Rightarrow> CSStaff"
  groupObj :: "ptr \<Rightarrow> CSGroup"
  sessionObj :: "ptr \<Rightarrow> Session"
  nextPtr :: ptr
  closedConns :: "conn list"

text \<open>Go's zero values fill the cells that no allocation has written.\<close>

definition zeroUser :: User where
  "zeroUser = \<lparr>User_ID = [], User_Name = [], User_Status = UserStatusOffline,
     User_Conn = None, User_CreateAt = 0, User_SessionID = []\<rparr>"

definition zeroStaff :: CSStaff where
  "zeroStaff = \<lparr>Staff_ID = [], Staff_Name = [], Staff_GroupID = [],
     Staff_Status = UserStatusOffline, Staff_Conn = None, Staff_Sessions = []\<rparr>"

definition zeroGroup :: CSGroup where
  "zeroGroup = \<lparr>Group_ID = [], Group_Name = [], Group_Members = Map.empty\<rparr>"

definition zeroSession :: Session where
  "zeroSession = \<lparr>Session_ID = [], Session_UserID = [], Session_StaffID = [],
     Session_Status = SessionStatusWaiting, Session_CreateAt = 0, Session_UpdateAt = 0,
     Session_Messages = []\<rparr>"

definition NewCustomerService :: CustomerService where
  "NewCustomerService = \<lparr>users = Map.empty, staffs = Map.empty, groups = Map.empty,
     sessions = Map.empty, userObj = (\<lambda>_. zeroUser), staffObj = (\<lambda>_. zeroStaff),
     groupObj = (\<lambda>_. zeroGroup), sessionObj = (\<lambda>_. zeroSession), nextPtr = 0,
     closedConns = []\<rparr>"

text \<open>Assignments through a pointer: \<^verbatim>\<open>p.Field = v\<close> rewrites the cell at \<open>p\<close>.\<close>

definition setUser :: "ptr \<Rightarrow> (User \<Rightarrow> User) \<Rightarrow> CustomerService \<Rightarrow> CustomerService" where
  "setUser p f cs = cs\<lparr>userObj := (userObj cs)(p := f (userObj cs p))\<rparr>"

definition setStaff :: "ptr \<Rightarrow> (CSStaff \<Rightarrow> CSStaff) \<Rightarrow> CustomerService \<Rightarrow> CustomerService" where
  "setStaff p f cs = cs\<lparr>staffObj := (staffObj cs)(p := f (staffObj cs p))\<rparr>"

definition setGroup :: "ptr \<Rightarrow> (CSGroup \<Rightarrow> CSGroup) \<Rightarrow> CustomerService \<Rightarrow> CustomerService" where
  "setGroup p f cs = cs\<lparr>groupObj := (groupObj cs)(p := f (groupObj cs p))\<rparr>"

definition setSession :: "ptr \<Rightarrow> (Session \<Rightarrow> Session) \<Rightarrow> CustomerService \<Rightarrow> CustomerService" where
  "setSession p f cs = cs\<lparr>sessionObj := (sessionObj cs)(p := f (sessionObj cs p))\<rparr>"

text \<open>\<^verbatim>\<open>if c != nil { c.Close() }\<close>\<close>

definition closeConn :: "conn option \<Rightarrow> CustomerService \<Rightarrow> CustomerService" where
  "closeConn c cs = (case c of None \<Rightarrow> cs | Some h \<Rightarrow> cs\<lparr>closedConns := closedConns cs @ [h]\<rparr>)"

subsection \<open>The standard library's clock and time format\<close>

text \<open>
  Each method takes \<open>now :: nat \<Rightarrow> time\<close>: \<open>now i\<close> is what the \<open>i\<close>-th call of
  \<^verbatim>\<open>time.Now()\<close> inside that method invocation returns (counted from 0).

  \<^verbatim>\<open>t.Format("20060102150405")\<close> prints year, month, day, hour, minute and second
  as 4+2+2+2+2+2 decimal digits. The model prints them for the UTC zone and for years up
  to 9999; the date is computed from the day number by the usual civil-calendar
  arithmetic.
\<close>

definition digit :: "nat \<Rightarrow> char" where
  "digit n = ''0123456789'' ! (n mod 10)"

definition digits2 :: "nat \<Rightarrow> string" where
  "digits2 n = [digit (n div 10), digit n]"

definition digits4 :: "nat \<Rightarrow> string" where
  "digits4 n = [digit (n div 1000), digit (n div 100), digit (n div 10), digit n]"

text \<open>The date of day number \<open>days\<close> (days since 1970-01-01), in 400-year eras that
  start on 1 March; \<open>doe\<close> is the day of the era.\<close>

definition yearOfEra :: "nat \<Rightarrow> nat" where
  "yearOfEra doe = (doe - doe div 1460 + doe div 36524 - doe div 146096) div 365"

definition dayOfYear :: "nat \<Rightarrow> nat" where
  "dayOfYear doe = doe - (365 * yearOfEra doe + yearOfEra doe div 4 - yearOfEra doe div 100)"

definition monthIndex :: "nat \<Rightarrow> nat" where
  "monthIndex doe = (5 * dayOfYear doe + 2) div 153"

definition civilDay :: "nat \<Rightarrow> nat" where
  "civilDay days =
     dayOfYear ((days + 719468) mod 146097)
       - (153 * monthIndex ((days + 719468) mod 146097) + 2) div 5 + 1"

definition civilMonth :: "nat \<Rightarrow> nat" where
  "civilMonth days =
     (if monthIndex ((days + 719468) mod 146097) < 10
      then monthIndex ((days + 719468) mod 146097) + 3
      else monthIndex ((days + 719468) mod 146097) - 9)"

definition civilYear :: "nat \<Rightarrow> nat" where
  "civilYear days =
     yearOfEra ((days + 719468) mod 146097) + (days + 719468) div 146097 * 400
       + (if civilMonth days \<le> 2 then 1 else 0)"

definition FormatSeconds :: "nat \<Rightarrow> string" where
  "FormatSeconds secs =
     digits4 (civilYear (secs div 86400)) @ digits2 (civilMonth (secs div 86400))
     @ digits2 (civilDay (secs div 86400))
     @ digits2 (secs mod 86400 div 3600) @ digits2 (secs mod 3600 div 60)
     @ digits2 (secs mod 60)"

definition Format :: "time \<Rightarrow> string" where
  "Format t = FormatSeconds (t div 1000000000)"

subsection \<open>service.go: the methods\<close>

definition ConnectUser ::
  "(nat \<Rightarrow> time) \<Rightarrow> CustomerService \<Rightarrow> string \<Rightarrow> string \<Rightarrow> conn option \<Rightarrow> ptr \<times> CustomerService" where
  "ConnectUser now cs userID name c =
     (let user = nextPtr cs;
          cs1 = cs\<lparr>nextPtr := Suc user,
                   userObj := (userObj cs)(user :=
                     \<lparr>User_ID = userID, User_Name = name, User_Status = UserStatusOnline,
                      User_Conn = c, User_CreateAt = now 0, User_SessionID = []\<rparr>)\<rparr>
      in (user, cs1\<lparr>users := (users cs1)(userID \<mapsto> user)\<rparr>))"

definition ConnectStaff ::
  "CustomerService \<Rightarrow> string \<Rightarrow> string \<Rightarrow> string \<Rightarrow> conn option
     \<Rightarrow> (error + ptr) \<times> CustomerService" where
  "ConnectStaff cs staffID name groupID c =
     (case groups cs groupID of
        None \<Rightarrow> (Inl ErrGroupNotFound, cs)
      | Some grp \<Rightarrow>
          (let staff = nextPtr cs;
               cs1 = cs\<lparr>nextPtr := Suc staff,
                        staffObj := (staffObj cs)(staff :=
                          \<lparr>Staff_ID = staffID, Staff_Name = name, Staff_GroupID = groupID,
                           Staff_Status = UserStatusOnline, Staff_Conn = c,
                           Staff_Sessions = []\<rparr>)\<rparr>;
               cs2 = cs1\<lparr>staffs := (staffs cs1)(staffID \<mapsto> staff)\<rparr>;
               cs3 = setGroup grp
                       (\<lambda>g. g\<lparr>Group_Members := (Group_Members g)(staffID \<mapsto> staff)\<rparr>) cs2
           in (Inr staff, cs3)))"

definition CreateGroup :: "CustomerService \<Rightarrow> string \<Rightarrow> string \<Rightarrow> ptr \<times> CustomerService" where
  "CreateGroup cs groupID name =
     (let grp = nextPtr cs;
          cs1 = cs\<lparr>nextPtr := Suc grp,
                   groupObj := (groupObj cs)(grp :=
                     \<lparr>Group_ID = groupID, Group_Name = name, Group_Members = Map.empty\<rparr>)\<rparr>
      in (grp, cs1\<lparr>groups := (groups cs1)(groupID \<mapsto> grp)\<rparr>))"

text \<open>The id that \<^verbatim>\<open>CreateSession\<close> gives the new session.\<close>

definition newSessionID :: "(nat \<Rightarrow> time) \<Rightarrow> string \<Rightarrow> string \<Rightarrow> string" where
  "newSessionID now userID staffID = userID @ ''_'' @ staffID @ ''_'' @ Format (now 0)"

definition CreateSession ::
  "(nat \<Rightarrow> time) \<Rightarrow> CustomerService \<Rightarrow> string \<Rightarrow> string \<Rightarrow> (error + ptr) \<times> CustomerService" where
  "CreateSession now cs userID staffID =
     (case users cs userID of
        None \<Rightarrow> (Inl ErrUserNotFound, cs)
      | Some user \<Rightarrow>
     (case staffs cs staffID of
        None \<Rightarrow> (Inl ErrStaffNotFound, cs)
      | Some staff \<Rightarrow>
          (let session = nextPtr cs;
               cs1 = cs\<lparr>nextPtr := Suc session,
                        sessionObj := (sessionObj cs)(session :=
                          \<lparr>Session_ID = newSessionID now userID staffID,
                           Session_UserID = userID, Session_StaffID = staffID,
                           Session_Status = SessionStatusActive,
                           Session_CreateAt = now 1, Session_UpdateAt = now 2,
                           Session_Messages = []\<rparr>)\<rparr>;
               sid = Session_ID (sessionObj cs1 session);
               cs2 = cs1\<lparr>sessions := (sessions cs1)(sid \<mapsto> session)\<rparr>;
               cs3 = setStaff staff
                       (\<lambda>s. s\<lparr>Staff_Sessions := AList.update sid session (Staff_Sessions s)\<rparr>) cs2;
               cs4 = setUser user (\<lambda>u. u\<lparr>User_SessionID := sid\<rparr>) cs3;
               cs5 = setUser user (\<lambda>u. u\<lparr>User_Status := UserStatusInSession\<rparr>) cs4
           in (Inr session, cs5))))"

definition TransferSession ::
  "(nat \<Rightarrow> time) \<Rightarrow> CustomerService \<Rightarrow> string \<Rightarrow> string \<Rightarrow> error option \<times> CustomerService" where
  "TransferSession now cs sessionID newStaffID =
     (case sessions cs sessionID of
        None \<Rightarrow> (Some ErrSessionNotFound, cs)
      | Some session \<Rightarrow>
     (case staffs cs newStaffID of
        None \<Rightarrow> (Some ErrStaffNotFound, cs)
      | Some newStaff \<Rightarrow>
     (case staffs cs (Session_StaffID (sessionObj cs session)) of
        None \<Rightarrow> (Some ErrStaffNotFound, cs)
      | Some oldStaff \<Rightarrow>
          (let cs1 = setStaff oldStaff
                       (\<lambda>s. s\<lparr>Staff_Sessions := AList.delete sessionID (Staff_Sessions s)\<rparr>) cs;
               cs2 = setSession session (\<lambda>s. s\<lparr>Session_StaffID := newStaffID\<rparr>) cs1;
               cs3 = setSession session (\<lambda>s. s\<lparr>Session_UpdateAt := now 0\<rparr>) cs2;
               cs4 = setStaff newStaff
                       (\<lambda>s. s\<lparr>Staff_Sessions := AList.update sessionID session (Staff_Sessions s)\<rparr>) cs3
           in (None, cs4)))))"

definition SendMessage ::
  "(nat \<Rightarrow> time) \<Rightarrow> CustomerService \<Rightarrow> string \<Rightarrow> string \<Rightarrow> string \<Rightarrow> MessageType
     \<Rightarrow> (error + Message) \<times> CustomerService" where
  "SendMessage now cs sessionID fromID content msgType =
     (case sessions cs sessionID of
        None \<Rightarrow> (Inl ErrSessionNotFound, cs)
      | Some session \<Rightarrow>
          (let msg = \<lparr>Message_ID = sessionID @ ''_'' @ Format (now 0),
                      Message_SessionID = sessionID, Message_FromID = fromID,
                      Message_ToID = [], Message_Content = content, Message_Type = msgType,
                      Message_CreateAt = now 1\<rparr>;
               deliver = (\<lambda>m.
                  (let cs1 = setSession session
                               (\<lambda>s. s\<lparr>Session_Messages := Session_Messages s @ [m]\<rparr>) cs;
                       cs2 = setSession session (\<lambda>s. s\<lparr>Session_UpdateAt := now 2\<rparr>) cs1
                   in (Inr m, cs2)))
           in if fromID = Session_UserID (sessionObj cs session)
              then deliver (msg\<lparr>Message_ToID := Session_StaffID (sessionObj cs session)\<rparr>)
              else if fromID = Session_StaffID (sessionObj cs session)
              then deliver (msg\<lparr>Message_ToID := Session_UserID (sessionObj cs session)\<rparr>)
              else (Inl ErrInvalidOperation, cs)))"

definition DisconnectUser :: "CustomerService \<Rightarrow> string \<Rightarrow> CustomerService" where
  "DisconnectUser cs userID =
     (case users cs userID of
        None \<Rightarrow> cs
      | Some user \<Rightarrow>
          (let cs1 = setUser user (\<lambda>u. u\<lparr>User_Status := UserStatusOffline\<rparr>) cs;
               cs2 = closeConn (User_Conn (userObj cs1 user)) cs1
           in cs2\<lparr>users := (users cs2)(userID := None)\<rparr>))"

text \<open>
  The loop \<^verbatim>\<open>for sessionID := range staff.Sessions\<close> of \<^verbatim>\<open>DisconnectStaff\<close>. Go
  visits the keys in an unspecified order; the model visits them in the order of the
  association list. \<open>i\<close> counts the \<^verbatim>\<open>time.Now()\<close> calls made so far.
\<close>

fun closeSessions ::
  "(nat \<Rightarrow> time) \<Rightarrow> nat \<Rightarrow> (string \<times> ptr) list \<Rightarrow> CustomerService \<Rightarrow> CustomerService" where
  "closeSessions now i [] cs = cs"
| "closeSessions now i ((sessionID, _) # rest) cs =
     (case sessions cs sessionID of
        None \<Rightarrow> closeSessions now i rest cs
      | Some session \<Rightarrow>
          (let cs1 = setSession session (\<lambda>s. s\<lparr>Session_Status := SessionStatusClosed\<rparr>) cs;
               cs2 = setSession session (\<lambda>s. s\<lparr>Session_UpdateAt := now i\<rparr>) cs1
           in closeSessions now (Suc i) rest cs2))"

definition DisconnectStaff :: "(nat \<Rightarrow> time) \<Rightarrow> CustomerService \<Rightarrow> string \<Rightarrow> CustomerService" where
  "DisconnectStaff now cs staffID =
     (case staffs cs staffID of
        None \<Rightarrow> cs
      | Some staff \<Rightarrow>
          (let cs1 = setStaff staff (\<lambda>s. s\<lparr>Staff_Status := UserStatusOffline\<rparr>) cs;
               cs2 = closeConn (Staff_Conn (staffObj cs1 staff)) cs1;
               cs3 = (case groups cs2 (Staff_GroupID (staffObj cs2 staff)) of
                        None \<Rightarrow> cs2
                      | Some grp \<Rightarrow>
                          setGroup grp
                            (\<lambda>g. g\<lparr>Group_Members := (Group_Members g)(staffID := None)\<rparr>) cs2);
               cs4 = closeSessions now 0 (Staff_Sessions (staffObj cs3 staff)) cs3
           in cs4\<lparr>staffs := (staffs cs4)(staffID := None)\<rparr>))"

definition GetUser :: "CustomerService \<Rightarrow> string \<Rightarrow> ptr option" where
  "GetUser cs userID = users cs userID"

definition GetStaff :: "CustomerService \<Rightarrow> string \<Rightarrow> ptr option" where
  "GetStaff cs staffID = staffs cs staffID"

definition GetSession :: "CustomerService \<Rightarrow> string \<Rightarrow> ptr option" where
  "GetSession cs sessionID = sessions cs sessionID"

text \<open>The staff member's session set contains the id: the id is a key of
  \<^verbatim>\<open>staff.Sessions\<close> (what \<^verbatim>\<open>assert.Contains(t, staff2.Sessions, session.ID)\<close>
  tests).\<close>

definition hasSession :: "CSStaff \<Rightarrow> string \<Rightarrow> bool" where
  "hasSession staff sessionID = (map_of (Staff_Sessions staff) sessionID \<noteq> None)"

subsection \<open>Sequences of registry operations\<close>

text \<open>
  One constructor per mutating method, with the method's arguments and, where the method
  reads the clock, the readings it gets. \<open>step\<close> keeps the registry and drops the
  returned value; a call that returns an error leaves the registry as it was.
\<close>

datatype op =
    OpConnectUser "nat \<Rightarrow> time" string string "conn option"
  | OpConnectStaff string string string "conn option"
  | OpCreateGroup string string
  | OpCreateSession "nat \<Rightarrow> time" string string
  | OpTransferSession "nat \<Rightarrow> time" string string
  | OpSendMessage "nat \<Rightarrow> time" string string string MessageType
  | OpDisconnectUser string
  | OpDisconnectStaff "nat \<Rightarrow> time" string

fun step :: "CustomerService \<Rightarrow> op \<Rightarrow> CustomerService" where
  "step cs (OpConnectUser now userID name c) = snd (ConnectUser now cs userID name c)"
| "step cs (OpConnectStaff staffID name groupID c) =
     snd (ConnectStaff cs staffID name groupID c)"
| "step cs (OpCreateGroup groupID name) = snd (CreateGroup cs groupID name)"
| "step cs (OpCreateSession now userID staffID) = snd (CreateSession now cs userID staffID)"
| "step cs (OpTransferSession now sessionID newStaffID) =
     snd (TransferSession now cs sessionID newStaffID)"
| "step cs (OpSendMessage now sessionID fromID content msgType) =
     snd (SendMessage now cs sessionID fromID content msgType)"
| "step cs (OpDisconnectUser userID) = DisconnectUser cs userID"
| "step cs (OpDisconnectStaff now staffID) = DisconnectStaff now cs staffID"

definition run :: "CustomerService \<Rightarrow> op list \<Rightarrow> CustomerService" where
  "run cs ops = foldl step cs ops"

subsection \<open>Test fixtures\<close>

text \<open>
  The set-up of \<^verbatim>\<open>TestCustomerService_TransferSession\<close>: one group, one user, two
  staff members, one session between \<^verbatim>\<open>user1\<close> and \<^verbatim>\<open>staff1\<close>. A clock
  \<open>clockAt t\<close> advances by one nanosecond per reading, starting at \<open>t\<close>.
\<close>

definition clockAt :: "time \<Rightarrow> nat \<Rightarrow> time" where
  "clockAt t i = t + i"

definition fixtureOps :: "op list" where
  "fixtureOps =
     [OpCreateGroup ''group1'' ''TestGroup'',
      OpConnectUser (clockAt 1700000000000000000) ''user1'' ''TestUser'' (Some 0),
      OpConnectStaff ''staff1'' ''TestStaff1'' ''group1'' (Some 1),
      OpConnectStaff ''staff2'' ''TestStaff2'' ''group1'' (Some 2),
      OpCreateSession (clockAt 1700000000000000100) ''user1'' ''staff1'']"

definition fixture :: CustomerService where
  "fixture = run NewCustomerService fixtureOps"

text \<open>The fixture after \<^verbatim>\<open>staff1\<close> has gone: its session is closed.\<close>

definition fixtureClosed :: CustomerService where
  "fixtureClosed = DisconnectStaff (clockAt 1700000005000000000) fixture ''staff1''"

text \<open>
  The set-up of the end-to-end scenario: group \<^verbatim>\<open>g1\<close>, user \<^verbatim>\<open>u1\<close> and staff
  member \<^verbatim>\<open>s1\<close> connected, no session yet.
\<close>

definition pairFixture :: CustomerService where
  "pairFixture = run NewCustomerService
     [OpCreateGroup ''g1'' ''Group'',
      OpConnectUser (clockAt 1700000000000000000) ''u1'' ''User'' (Some 0),
      OpConnectStaff ''s1'' ''Staff'' ''g1'' (Some 1)]"

text \<open>
  Two calls of \<^verbatim>\<open>CreateSession\<close> for the same pair, one after the other; the caller
  reads \<^verbatim>\<open>session.ID\<close> from each returned pointer when the call returns. The result
  is \<open>None\<close> if either call returns an error.
\<close>

definition createTwice ::
  "(nat \<Rightarrow> time) \<Rightarrow> (nat \<Rightarrow> time) \<Rightarrow> CustomerService \<Rightarrow> string \<Rightarrow> string
     \<Rightarrow> (string \<times> string \<times> CustomerService) option" where
  "createTwice now1 now2 cs userID staffID =
     (case CreateSession now1 cs userID staffID of
        (Inl e, cs1) \<Rightarrow> None
      | (Inr session1, cs1) \<Rightarrow>
          (case CreateSession now2 cs1 userID staffID of
             (Inl e, cs2) \<Rightarrow> None
           | (Inr session2, cs2) \<Rightarrow>
               Some (Session_ID (sessionObj cs1 session1),
                     Session_ID (sessionObj cs2 session2), cs2)))"

subsection \<open>The session-ownership invariant\<close>

text \<open>A session that is Active or Waiting.\<close>

definition liveSession :: "Session \<Rightarrow> bool" where
  "liveSession s \<longleftrightarrow>
     Session_Status s = SessionStatusActive \<or> Session_Status s = SessionStatusWaiting"

text \<open>
  Invariant 2 of the data model: for every session of the session table that is Active
  or Waiting, exactly one staff member of the staff table has the session's id in its
  session set, and that staff member's id is the session's staff id.
\<close>

definition sessionOwnerInv :: "CustomerService \<Rightarrow> bool" where
  "sessionOwnerInv cs \<longleftrightarrow>
     (\<forall>sessionID session.
        sessions cs sessionID = Some session \<and> liveSession (sessionObj cs session) \<longrightarrow>
          (\<exists>!staff. (\<exists>staffID. staffs cs staffID = Some staff)
                    \<and> hasSession (staffObj cs staff) (Session_ID (sessionObj cs session)))
          \<and> (\<forall>staff. (\<exists>staffID. staffs cs staffID = Some staff)
                    \<and> hasSession (staffObj cs staff) (Session_ID (sessionObj cs session))
                 \<longrightarrow> Staff_ID (staffObj cs staff) = Session_StaffID (sessionObj cs session)))"

text \<open>
  The two calls after which the invariant can fail are restricted: \<^verbatim>\<open>ConnectStaff\<close> is
  allowed for an id that is not in the staff table, \<^verbatim>\<open>CreateSession\<close> when the id it
  generates is not in the session table. Every other call is allowed. A sequence is
  admissible when each call is allowed in the registry it is applied to.
\<close>

fun allowed :: "CustomerService \<Rightarrow> op \<Rightarrow> bool" where
  "allowed cs (OpConnectStaff staffID name groupID c) = (staffs cs staffID = None)"
| "allowed cs (OpCreateSession now userID staffID) =
     (sessions cs (newSessionID now userID staffID) = None)"
| "allowed cs _ = True"

fun admissible :: "CustomerService \<Rightarrow> op list \<Rightarrow> bool" where
  "admissible cs [] = True"
| "admissible cs (x # xs) = (allowed cs x \<and> admissible (step cs x) xs)"

text \<open>The operation is a call of \<^verbatim>\<open>TransferSession\<close>.\<close>

fun isTransfer :: "op \<Rightarrow> bool" where
  "isTransfer (OpTransferSession now sessionID newStaffID) = True"
| "isTransfer _ = False"

text \<open>Further fixtures: the fixture continued by a message, a transfer and both
  disconnects; the fixture with \<^verbatim>\<open>staff1\<close> connecting a second time, while its session
  is open and after it was closed; and a sequence without transfers that is applied to the
  closed fixture.\<close>

definition scenarioOps :: "op list" where
  "scenarioOps = fixtureOps @
     [OpSendMessage (clockAt 1700000001000000000) ''user1_staff1_20231114221320'' ''user1''
        ''Hello'' MessageTypeText,
      OpTransferSession (clockAt 1700000002000000000) ''user1_staff1_20231114221320'' ''staff2'',
      OpDisconnectStaff (clockAt 1700000003000000000) ''staff1'',
      OpDisconnectUser ''user1'']"

definition reconnectOps :: "op list" where
  "reconnectOps = fixtureOps @ [OpConnectStaff ''staff1'' ''TestStaff1'' ''group1'' (Some 3)]"

definition fixtureReconnected :: CustomerService where
  "fixtureReconnected = run NewCustomerService
     (fixtureOps @
      [OpDisconnectStaff (clockAt 1700000005000000000) ''staff1'',
       OpConnectStaff ''staff1'' ''TestStaff1'' ''group1'' (Some 3)])"

text \<open>Two pairs whose ids run together to the same text, \<^verbatim>\<open>a_b\<close> with \<^verbatim>\<open>c\<close>
  and \<^verbatim>\<open>a\<close> with \<^verbatim>\<open>b_c\<close>, get sessions within one second.\<close>

definition collisionOps :: "op list" where
  "collisionOps =
     [OpCreateGroup ''g'' ''Group'',
      OpConnectUser (clockAt 1700000000000000000) ''a_b'' ''User1'' None,
      OpConnectUser (clockAt 1700000000000001000) ''a'' ''User2'' None,
      OpConnectStaff ''c'' ''Staff1'' ''g'' None,
      OpConnectStaff ''b_c'' ''Staff2'' ''g'' None,
      OpCreateSession (clockAt 1700000000000000100) ''a_b'' ''c'',
      OpCreateSession (clockAt 1700000000000900000) ''a'' ''b_c'']"

definition afterClosureOps :: "op list" where
  "afterClosureOps =
     [OpConnectStaff ''staff1'' ''TestStaff1'' ''group1'' (Some 3),
      OpSendMessage (clockAt 1700000006000000000) ''user1_staff1_20231114221320'' ''user1''
        ''Hello'' MessageTypeText,
      OpCreateSession (clockAt 1700000007000000000) ''user1'' ''staff2'',
      OpDisconnectStaff (clockAt 1700000008000000000) ''staff2'']"

text \<open>
  What the methods maintain along admissible sequences: every table entry points to an
  allocated object that carries the entry's key as its id; every id in a staff member's
  session set is in the session table; and each live session is held by the staff member
  registered under the session's staff id and by no other.
\<close>

definition staffTableInv :: "CustomerService \<Rightarrow> bool" where
  "staffTableInv cs \<longleftrightarrow>
     (\<forall>k q. staffs cs k = Some q \<longrightarrow> q < nextPtr cs \<and> Staff_ID (staffObj cs q) = k)"

definition sessionTableInv :: "CustomerService \<Rightarrow> bool" where
  "sessionTableInv cs \<longleftrightarrow>
     (\<forall>k p. sessions cs k = Some p \<longrightarrow> p < nextPtr cs \<and> Session_ID (sessionObj cs p) = k)"

definition heldInv :: "CustomerService \<Rightarrow> bool" where
  "heldInv cs \<longleftrightarrow>
     (\<forall>k q sid. staffs cs k = Some q \<and> hasSession (staffObj cs q) sid
        \<longrightarrow> sessions cs sid \<noteq> None)"

definition ownerInv :: "CustomerService \<Rightarrow> bool" where
  "ownerInv cs \<longleftrightarrow>
     (\<forall>sid p. sessions cs sid = Some p \<and> liveSession (sessionObj cs p) \<longrightarrow>
        (\<exists>q. staffs cs (Session_StaffID (sessionObj cs p)) = Some q
              \<and> hasSession (staffObj cs q) sid)
        \<and> (\<forall>k q. staffs cs k = Some q \<and> hasSession (staffObj cs q) sid
              \<longrightarrow> k = Session_StaffID (sessionObj cs p)))"

definition regInv :: "CustomerService \<Rightarrow> bool" where
  "regInv cs \<longleftrightarrow> staffTableInv cs \<and> sessionTableInv cs \<and> heldInv cs \<and> ownerInv cs"

section \<open>Properties\<close>

lemmas method_defs = ConnectUser_def ConnectStaff_def CreateGroup_def CreateSession_def
  TransferSession_def SendMessage_def DisconnectUser_def DisconnectStaff_def
  setUser_def setStaff_def setGroup_def setSession_def closeConn_def newSessionID_def

lemmas Format_defs = Format_def FormatSeconds_def civilYear_def civilMonth_def civilDay_def
  monthIndex_def dayOfYear_def yearOfEra_def digits2_def digits4_def digit_def

subsection \<open>Facts about the fixtures\<close>

lemmas eval_defs = method_defs NewCustomerService_def run_def Let_def fixtureOps_def clockAt_def

lemma Format_fixture: "Format 1700000000000000100 = ''20231114221320''"
  by (simp add: Format_defs)

lemma fixture_sessions: "sessions fixture ''user1_staff1_20231114221320'' = Some 4"
  by (simp add: fixture_def eval_defs Format_fixture)

lemma fixture_session4:
  "sessionObj fixture 4 = \<lparr>Session_ID = ''user1_staff1_20231114221320'', Session_UserID = ''user1'',
     Session_StaffID = ''staff1'', Session_Status = SessionStatusActive,
     Session_CreateAt = 1700000000000000101, Session_UpdateAt = 1700000000000000102,
     Session_Messages = []\<rparr>"
  by (simp add: fixture_def eval_defs Format_fixture)

lemma fixture_staffs:
  "staffs fixture ''staff1'' = Some 2" "staffs fixture ''staff2'' = Some 3"
  by (simp_all add: fixture_def eval_defs)

lemma fixture_users: "users fixture ''user1'' = Some (Suc 0)"
  by (simp add: fixture_def eval_defs)

lemma fixture_user1:
  "userObj fixture (Suc 0) = \<lparr>User_ID = ''user1'', User_Name = ''TestUser'',
     User_Status = UserStatusInSession, User_Conn = Some 0,
     User_CreateAt = 1700000000000000000, User_SessionID = ''user1_staff1_20231114221320''\<rparr>"
  by (simp add: fixture_def eval_defs Format_fixture)

lemma fixture_groups: "groups fixture ''group1'' = Some 0"
  by (simp add: fixture_def eval_defs)

lemma fixture_staff2:
  "staffObj fixture 2 = \<lparr>Staff_ID = ''staff1'', Staff_Name = ''TestStaff1'', Staff_GroupID = ''group1'',
     Staff_Status = UserStatusOnline, Staff_Conn = Some 1,
     Staff_Sessions = [(''user1_staff1_20231114221320'', 4)]\<rparr>"
  by (simp add: fixture_def eval_defs Format_fixture)

lemma fixture_staff3:
  "staffObj fixture 3 = \<lparr>Staff_ID = ''staff2'', Staff_Name = ''TestStaff2'', Staff_GroupID = ''group1'',
     Staff_Status = UserStatusOnline, Staff_Conn = Some 2, Staff_Sessions = []\<rparr>"
  by (simp add: fixture_def eval_defs Format_fixture)

lemma fixture_nonexistent:
  "sessions fixture ''nonexistent'' = None" "users fixture ''nonexistent'' = None"
  "staffs fixture ''nonexistent'' = None"
  by (simp_all add: fixture_def eval_defs Format_fixture)

lemma fixture_nextPtr: "nextPtr fixture = 5"
  by (simp add: fixture_def eval_defs)

lemmas fixture_facts = fixture_sessions fixture_session4 fixture_staffs fixture_users
  fixture_user1 fixture_groups fixture_staff2 fixture_staff3 fixture_nextPtr fixture_nonexistent

lemmas set_defs = setUser_def setStaff_def setGroup_def setSession_def closeConn_def Let_def

lemma fixtureClosed_sessions: "sessions fixtureClosed = sessions fixture"
  by (simp add: fixtureClosed_def DisconnectStaff_def fixture_facts set_defs)

lemma fixtureClosed_session4:
  "sessionObj fixtureClosed 4 = \<lparr>Session_ID = ''user1_staff1_20231114221320'', Session_UserID = ''user1'',
     Session_StaffID = ''staff1'', Session_Status = SessionStatusClosed,
     Session_CreateAt = 1700000000000000101, Session_UpdateAt = 1700000005000000000,
     Session_Messages = []\<rparr>"
  by (simp add: fixtureClosed_def DisconnectStaff_def fixture_facts set_defs clockAt_def)

lemma fixtureClosed_staffs:
  "staffs fixtureClosed ''staff1'' = None" "staffs fixtureClosed ''staff2'' = Some 3"
  by (simp_all add: fixtureClosed_def DisconnectStaff_def fixture_facts set_defs)

lemmas fixtureClosed_facts = fixtureClosed_sessions fixtureClosed_session4 fixtureClosed_staffs

subsection \<open>SendMessage\<close>

text \<open>
  Claim C4. When the session exists and the sender is neither its user nor its staff
  member, \<^verbatim>\<open>SendMessage\<close> returns \<^verbatim>\<open>ErrInvalidOperation\<close>; the session's
  messages and update time, and the whole registry, are as before the call.
\<close>

theorem SendMessage_outsider_rejected:
  assumes "sessions cs sessionID = Some session"
    and "fromID \<noteq> Session_UserID (sessionObj cs session)"
    and "fromID \<noteq> Session_StaffID (sessionObj cs session)"
  shows "fst (SendMessage now cs sessionID fromID content msgType) = Inl ErrInvalidOperation
     \<and> Session_Messages (sessionObj (snd (SendMessage now cs sessionID fromID content msgType)) session)
         = Session_Messages (sessionObj cs session)
     \<and> Session_UpdateAt (sessionObj (snd (SendMessage now cs sessionID fromID content msgType)) session)
         = Session_UpdateAt (sessionObj cs session)
     \<and> snd (SendMessage now cs sessionID fromID content msgType) = cs"
  using assms by (simp add: SendMessage_def Let_def)

text \<open>In the fixture, \<^verbatim>\<open>nonexistent\<close> is no party of the session (as in
  \<^verbatim>\<open>TestCustomerService_SendMessage\<close>).\<close>

theorem SendMessage_outsider_rejected_witness:
  "sessions fixture ''user1_staff1_20231114221320'' = Some 4
   \<and> ''nonexistent'' \<noteq> Session_UserID (sessionObj fixture 4)
   \<and> ''nonexistent'' \<noteq> Session_StaffID (sessionObj fixture 4)
   \<and> fst (SendMessage (clockAt 1700000001000000000) fixture ''user1_staff1_20231114221320''
            ''nonexistent'' ''Hello'' MessageTypeText) = Inl ErrInvalidOperation
   \<and> Session_Messages (sessionObj (snd (SendMessage (clockAt 1700000001000000000) fixture
            ''user1_staff1_20231114221320'' ''nonexistent'' ''Hello'' MessageTypeText)) 4) = []
   \<and> Session_UpdateAt (sessionObj (snd (SendMessage (clockAt 1700000001000000000) fixture
            ''user1_staff1_20231114221320'' ''nonexistent'' ''Hello'' MessageTypeText)) 4)
        = 1700000000000000102"
  using SendMessage_outsider_rejected [of fixture "''user1_staff1_20231114221320''" 4
      "''nonexistent''" "clockAt 1700000001000000000" "''Hello''" MessageTypeText]
  by (simp add: fixture_facts)

text \<open>
  Claim C9. \<^verbatim>\<open>SendMessage\<close> returns an error exactly when the session id is not in
  the session table (\<^verbatim>\<open>ErrSessionNotFound\<close>) or the sender is neither party of
  the session (\<^verbatim>\<open>ErrInvalidOperation\<close>). The session's status is never read: on a
  Closed session a message from either party is accepted, appended to the session's
  messages, and the update time is set to the third clock reading of the call.
\<close>

theorem SendMessage_errors_exactly:
  "((\<exists>e. fst (SendMessage now cs sessionID fromID content msgType) = Inl e)
      \<longleftrightarrow> (sessions cs sessionID = None
           \<or> (\<exists>session. sessions cs sessionID = Some session
                 \<and> fromID \<noteq> Session_UserID (sessionObj cs session)
                 \<and> fromID \<noteq> Session_StaffID (sessionObj cs session))))
   \<and> (sessions cs sessionID = None
        \<longrightarrow> fst (SendMessage now cs sessionID fromID content msgType) = Inl ErrSessionNotFound)
   \<and> (\<forall>session. sessions cs sessionID = Some session
          \<and> fromID \<noteq> Session_UserID (sessionObj cs session)
          \<and> fromID \<noteq> Session_StaffID (sessionObj cs session)
        \<longrightarrow> fst (SendMessage now cs sessionID fromID content msgType) = Inl ErrInvalidOperation)
   \<and> (\<forall>session. sessions cs sessionID = Some session
          \<and> Session_Status (sessionObj cs session) = SessionStatusClosed
          \<and> (fromID = Session_UserID (sessionObj cs session)
               \<or> fromID = Session_StaffID (sessionObj cs session))
        \<longrightarrow> (\<exists>m. fst (SendMessage now cs sessionID fromID content msgType) = Inr m
               \<and> Message_FromID m = fromID \<and> Message_Content m = content
               \<and> Session_Messages (sessionObj (snd (SendMessage now cs sessionID fromID content msgType)) session)
                   = Session_Messages (sessionObj cs session) @ [m]
               \<and> Session_UpdateAt (sessionObj (snd (SendMessage now cs sessionID fromID content msgType)) session)
                   = now 2
               \<and> Session_Status (sessionObj (snd (SendMessage now cs sessionID fromID content msgType)) session)
                   = SessionStatusClosed))"
  by (auto simp add: SendMessage_def Let_def setSession_def split: option.splits)


text \<open>In the closed fixture the departed \<^verbatim>\<open>staff1\<close> can still send on its
  closed session, and an unknown session id is refused.\<close>

theorem SendMessage_errors_exactly_witness:
  "sessions fixtureClosed ''user1_staff1_20231114221320'' = Some 4
   \<and> Session_Status (sessionObj fixtureClosed 4) = SessionStatusClosed
   \<and> ''staff1'' = Session_StaffID (sessionObj fixtureClosed 4)
   \<and> (\<exists>m. fst (SendMessage (clockAt 1700000006000000000) fixtureClosed
                 ''user1_staff1_20231114221320'' ''staff1'' ''Hi'' MessageTypeText) = Inr m
          \<and> Session_Messages (sessionObj (snd (SendMessage (clockAt 1700000006000000000)
                 fixtureClosed ''user1_staff1_20231114221320'' ''staff1'' ''Hi'' MessageTypeText)) 4)
              = [m]
          \<and> Session_UpdateAt (sessionObj (snd (SendMessage (clockAt 1700000006000000000)
                 fixtureClosed ''user1_staff1_20231114221320'' ''staff1'' ''Hi'' MessageTypeText)) 4)
              = 1700000006000000002)
   \<and> sessions fixtureClosed ''nonexistent'' = None
   \<and> fst (SendMessage (clockAt 1700000006000000000) fixtureClosed ''nonexistent'' ''user1''
           ''Hello'' MessageTypeText) = Inl ErrSessionNotFound"
  using SendMessage_errors_exactly [of "clockAt 1700000006000000000" fixtureClosed
      "''user1_staff1_20231114221320''" "''staff1''" "''Hi''" MessageTypeText]
    SendMessage_errors_exactly [of "clockAt 1700000006000000000" fixtureClosed
      "''nonexistent''" "''user1''" "''Hello''" MessageTypeText]
  by (auto simp add: fixtureClosed_facts fixture_facts clockAt_def)

subsection \<open>TransferSession\<close>

text \<open>
  Claim C6. When the session and the destination staff exist but the staff id stored in
  the session is not in the staff table, \<^verbatim>\<open>TransferSession\<close> returns
  \<^verbatim>\<open>ErrStaffNotFound\<close>. Whenever it returns an error, the error is
  \<^verbatim>\<open>ErrSessionNotFound\<close> or \<^verbatim>\<open>ErrStaffNotFound\<close> and the registry is unchanged:
  no session's staff id or update time and no staff member's session set differs.
\<close>

theorem TransferSession_failure_mutates_nothing:
  "(\<forall>session newStaff. sessions cs sessionID = Some session
        \<and> staffs cs newStaffID = Some newStaff
        \<and> staffs cs (Session_StaffID (sessionObj cs session)) = None
      \<longrightarrow> fst (TransferSession now cs sessionID newStaffID) = Some ErrStaffNotFound)
   \<and> (\<forall>e. fst (TransferSession now cs sessionID newStaffID) = Some e
      \<longrightarrow> (e = ErrSessionNotFound \<or> e = ErrStaffNotFound)
          \<and> snd (TransferSession now cs sessionID newStaffID) = cs
          \<and> (\<forall>session. Session_StaffID (sessionObj (snd (TransferSession now cs sessionID newStaffID)) session)
                   = Session_StaffID (sessionObj cs session)
                \<and> Session_UpdateAt (sessionObj (snd (TransferSession now cs sessionID newStaffID)) session)
                   = Session_UpdateAt (sessionObj cs session))
          \<and> (\<forall>staff. Staff_Sessions (staffObj (snd (TransferSession now cs sessionID newStaffID)) staff)
                   = Staff_Sessions (staffObj cs staff)))"
  by (auto simp add: TransferSession_def Let_def split: option.splits)

text \<open>In the closed fixture the session still names \<^verbatim>\<open>staff1\<close>, who has
  disconnected; a transfer to the connected \<^verbatim>\<open>staff2\<close> is refused.\<close>

theorem TransferSession_failure_mutates_nothing_witness:
  "sessions fixtureClosed ''user1_staff1_20231114221320'' = Some 4
   \<and> staffs fixtureClosed ''staff2'' = Some 3
   \<and> staffs fixtureClosed (Session_StaffID (sessionObj fixtureClosed 4)) = None
   \<and> fst (TransferSession (clockAt 1700000006000000000) fixtureClosed
           ''user1_staff1_20231114221320'' ''staff2'') = Some ErrStaffNotFound
   \<and> snd (TransferSession (clockAt 1700000006000000000) fixtureClosed
           ''user1_staff1_20231114221320'' ''staff2'') = fixtureClosed"
  using TransferSession_failure_mutates_nothing [of fixtureClosed
      "''user1_staff1_20231114221320''" "''staff2''" "clockAt 1700000006000000000"]
  by (simp add: fixtureClosed_facts fixture_facts)

subsection \<open>Disconnect\<close>

text \<open>
  Claim C8. \<^verbatim>\<open>DisconnectUser\<close> and \<^verbatim>\<open>DisconnectStaff\<close> return no error value at
  all (they are total functions to the new registry), and for an id that is not in the
  respective table the registry they return is the one they were given.
\<close>

theorem Disconnect_unknown_id_noop:
  "(users cs userID = None \<longrightarrow> DisconnectUser cs userID = cs)
   \<and> (staffs cs staffID = None \<longrightarrow> DisconnectStaff now cs staffID = cs)"
  by (simp add: DisconnectUser_def DisconnectStaff_def)

text \<open>The last lines of \<^verbatim>\<open>TestCustomerService_DisconnectUser\<close> and
  \<^verbatim>\<open>TestCustomerService_DisconnectStaff\<close>.\<close>

theorem Disconnect_unknown_id_noop_witness:
  "users fixture ''nonexistent'' = None \<and> staffs fixture ''nonexistent'' = None
   \<and> DisconnectUser fixture ''nonexistent'' = fixture
   \<and> DisconnectStaff (clockAt 1700000006000000000) fixture ''nonexistent'' = fixture"
  using Disconnect_unknown_id_noop [of fixture "''nonexistent''" "''nonexistent''"
      "clockAt 1700000006000000000"]
  by (simp add: fixture_facts)

subsection \<open>DisconnectStaff\<close>

lemma closeSessions_frame:
  "users (closeSessions now i al cs) = users cs
   \<and> staffs (closeSessions now i al cs) = staffs cs
   \<and> groups (closeSessions now i al cs) = groups cs
   \<and> sessions (closeSessions now i al cs) = sessions cs
   \<and> userObj (closeSessions now i al cs) = userObj cs
   \<and> staffObj (closeSessions now i al cs) = staffObj cs
   \<and> groupObj (closeSessions now i al cs) = groupObj cs
   \<and> nextPtr (closeSessions now i al cs) = nextPtr cs
   \<and> closedConns (closeSessions now i al cs) = closedConns cs"
  by (induction now i al cs rule: closeSessions.induct)
     (simp_all add: setSession_def Let_def split: option.splits)

lemma closeSessions_keeps:
  "Session_Status (sessionObj cs p) = SessionStatusClosed
   \<Longrightarrow> \<exists>j. Session_UpdateAt (sessionObj cs p) = now j
   \<Longrightarrow> Session_Status (sessionObj (closeSessions now i al cs) p) = SessionStatusClosed
       \<and> (\<exists>j. Session_UpdateAt (sessionObj (closeSessions now i al cs) p) = now j)"
proof (induction now i al cs rule: closeSessions.induct)
  case (1 now i cs)
  then show ?case by simp
next
  case (2 now i sessionID uu rest cs)
  show ?case
  proof (cases "sessions cs sessionID")
    case None
    with 2 show ?thesis by simp
  next
    case (Some session)
    let ?cs2 = "setSession session (\<lambda>s. s\<lparr>Session_UpdateAt := now i\<rparr>)
                 (setSession session (\<lambda>s. s\<lparr>Session_Status := SessionStatusClosed\<rparr>) cs)"
    have st: "Session_Status (sessionObj ?cs2 p) = SessionStatusClosed"
      using 2(3) by (simp add: setSession_def)
    have up: "\<exists>j. Session_UpdateAt (sessionObj ?cs2 p) = now j"
      using 2(4) by (cases "session = p") (auto simp add: setSession_def)
    from 2(2)[OF Some refl refl st up] Some show ?thesis
      by (simp add: Let_def)
  qed
qed

lemma closeSessions_closes:
  "sessionID \<in> fst ` set al \<Longrightarrow> sessions cs sessionID = Some p
   \<Longrightarrow> Session_Status (sessionObj (closeSessions now i al cs) p) = SessionStatusClosed
       \<and> (\<exists>j. Session_UpdateAt (sessionObj (closeSessions now i al cs) p) = now j)"
proof (induction now i al cs rule: closeSessions.induct)
  case (1 now i cs)
  then show ?case by simp
next
  case (2 now i sid uu rest cs)
  show ?case
  proof (cases "sessionID = sid")
    case True
    let ?cs2 = "setSession p (\<lambda>s. s\<lparr>Session_UpdateAt := now i\<rparr>)
                 (setSession p (\<lambda>s. s\<lparr>Session_Status := SessionStatusClosed\<rparr>) cs)"
    have st: "Session_Status (sessionObj ?cs2 p) = SessionStatusClosed"
      by (simp add: setSession_def)
    have up: "\<exists>j. Session_UpdateAt (sessionObj ?cs2 p) = now j"
      by (auto simp add: setSession_def)
    from True 2(4) have eq:
      "closeSessions now i ((sid, uu) # rest) cs = closeSessions now (Suc i) rest ?cs2"
      by (simp add: Let_def)
    show ?thesis
      unfolding eq by (rule closeSessions_keeps[OF st up])
  next
    case False
    with 2(3) have mem: "sessionID \<in> fst ` set rest" by auto
    show ?thesis
    proof (cases "sessions cs sid")
      case None
      with 2(1)[OF None mem 2(4)] show ?thesis by simp
    next
      case (Some session)
      have "sessions (setSession session (\<lambda>s. s\<lparr>Session_UpdateAt := now i\<rparr>)
                 (setSession session (\<lambda>s. s\<lparr>Session_Status := SessionStatusClosed\<rparr>) cs)) sessionID = Some p"
        using 2(4) by (simp add: setSession_def)
      with 2(2)[OF Some refl refl mem] Some show ?thesis
        by (simp add: Let_def)
    qed
  qed
qed

lemma hasSession_iff: "hasSession st sid \<longleftrightarrow> sid \<in> fst ` set (Staff_Sessions st)"
  by (simp add: hasSession_def map_of_eq_None_iff)

text \<open>
  Claim C5. For a staff member in the staff table, \<^verbatim>\<open>DisconnectStaff\<close> sets the
  status of the staff object to Offline, removes the id from the staff table and from the
  member set of the group the staff object names, and leaves every session whose id is in
  the staff member's session set (and in the session table) Closed with an update time
  read from the clock during the call. The user table and every user object, so each
  user's status and session id, are unchanged. The staff member's connection, if it has
  one, is closed.
\<close>

theorem DisconnectStaff_effect:
  assumes "staffs cs staffID = Some staff"
  shows "Staff_Status (staffObj (DisconnectStaff now cs staffID) staff) = UserStatusOffline
     \<and> staffs (DisconnectStaff now cs staffID) staffID = None
     \<and> (\<forall>grp. groups cs (Staff_GroupID (staffObj cs staff)) = Some grp
           \<longrightarrow> Group_Members (groupObj (DisconnectStaff now cs staffID) grp) staffID = None)
     \<and> (\<forall>sessionID session.
           hasSession (staffObj cs staff) sessionID \<and> sessions cs sessionID = Some session
           \<longrightarrow> Session_Status (sessionObj (DisconnectStaff now cs staffID) session)
                 = SessionStatusClosed
               \<and> (\<exists>i. Session_UpdateAt (sessionObj (DisconnectStaff now cs staffID) session)
                      = now i))
     \<and> users (DisconnectStaff now cs staffID) = users cs
     \<and> userObj (DisconnectStaff now cs staffID) = userObj cs
     \<and> closedConns (DisconnectStaff now cs staffID)
         = closedConns cs @ (case Staff_Conn (staffObj cs staff) of None \<Rightarrow> [] | Some h \<Rightarrow> [h])"
proof -
  let ?cs1 = "setStaff staff (\<lambda>s. s\<lparr>Staff_Status := UserStatusOffline\<rparr>) cs"
  let ?cs2 = "closeConn (Staff_Conn (staffObj ?cs1 staff)) ?cs1"
  let ?cs3 = "case groups ?cs2 (Staff_GroupID (staffObj ?cs2 staff)) of
                None \<Rightarrow> ?cs2
              | Some grp \<Rightarrow> setGroup grp
                  (\<lambda>g. g\<lparr>Group_Members := (Group_Members g)(staffID := None)\<rparr>) ?cs2"
  let ?cs4 = "closeSessions now 0 (Staff_Sessions (staffObj ?cs3 staff)) ?cs3"
  have D: "DisconnectStaff now cs staffID = ?cs4\<lparr>staffs := (staffs ?cs4)(staffID := None)\<rparr>"
    using assms by (simp add: DisconnectStaff_def Let_def)
  have cs3: "staffObj ?cs3 = (staffObj cs)(staff := (staffObj cs staff)\<lparr>Staff_Status := UserStatusOffline\<rparr>)"
    "sessions ?cs3 = sessions cs" "users ?cs3 = users cs" "userObj ?cs3 = userObj cs"
    "groups ?cs3 = groups cs"
    by (simp_all add: setStaff_def setGroup_def closeConn_def split: option.splits)
  have grp: "\<And>grp. groups cs (Staff_GroupID (staffObj cs staff)) = Some grp
       \<Longrightarrow> Group_Members (groupObj ?cs3 grp) staffID = None"
    by (simp add: setStaff_def setGroup_def closeConn_def split: option.splits)
  note fr = closeSessions_frame[of now 0 "Staff_Sessions (staffObj ?cs3 staff)" ?cs3]
  have a: "Staff_Status (staffObj (DisconnectStaff now cs staffID) staff) = UserStatusOffline"
    unfolding D using fr cs3(1) by simp
  have b: "staffs (DisconnectStaff now cs staffID) staffID = None"
    unfolding D by simp
  have c: "\<forall>grp. groups cs (Staff_GroupID (staffObj cs staff)) = Some grp
           \<longrightarrow> Group_Members (groupObj (DisconnectStaff now cs staffID) grp) staffID = None"
    unfolding D using fr grp by simp
  have d: "\<forall>sessionID session.
           hasSession (staffObj cs staff) sessionID \<and> sessions cs sessionID = Some session
           \<longrightarrow> Session_Status (sessionObj (DisconnectStaff now cs staffID) session)
                 = SessionStatusClosed
               \<and> (\<exists>i. Session_UpdateAt (sessionObj (DisconnectStaff now cs staffID) session)
                      = now i)"
  proof (intro allI impI)
    fix sessionID session
    assume h: "hasSession (staffObj cs staff) sessionID \<and> sessions cs sessionID = Some session"
    then have mem: "sessionID \<in> fst ` set (Staff_Sessions (staffObj ?cs3 staff))"
      by (simp add: hasSession_iff cs3(1))
    from h have look: "sessions ?cs3 sessionID = Some session"
      by (simp add: cs3(2))
    from closeSessions_closes[OF mem look, of now 0]
    show "Session_Status (sessionObj (DisconnectStaff now cs staffID) session)
                 = SessionStatusClosed
               \<and> (\<exists>i. Session_UpdateAt (sessionObj (DisconnectStaff now cs staffID) session)
                      = now i)"
      unfolding D by simp
  qed
  have e: "users (DisconnectStaff now cs staffID) = users cs"
    "userObj (DisconnectStaff now cs staffID) = userObj cs"
    unfolding D using fr cs3 by simp_all
  have "closedConns ?cs3
      = closedConns cs @ (case Staff_Conn (staffObj cs staff) of None \<Rightarrow> [] | Some h \<Rightarrow> [h])"
    by (simp add: setStaff_def setGroup_def closeConn_def split: option.splits)
  then have f: "closedConns (DisconnectStaff now cs staffID)
      = closedConns cs @ (case Staff_Conn (staffObj cs staff) of None \<Rightarrow> [] | Some h \<Rightarrow> [h])"
    unfolding D using fr by simp
  from a b c d e f show ?thesis by blast
qed


text \<open>\<^verbatim>\<open>TestCustomerService_DisconnectStaff\<close>: \<^verbatim>\<open>staff1\<close> leaves the
  fixture.\<close>

theorem DisconnectStaff_effect_witness:
  "staffs fixture ''staff1'' = Some 2
   \<and> groups fixture (Staff_GroupID (staffObj fixture 2)) = Some 0
   \<and> hasSession (staffObj fixture 2) ''user1_staff1_20231114221320''
   \<and> sessions fixture ''user1_staff1_20231114221320'' = Some 4
   \<and> Staff_Status (staffObj fixtureClosed 2) = UserStatusOffline
   \<and> staffs fixtureClosed ''staff1'' = None
   \<and> Group_Members (groupObj fixtureClosed 0) ''staff1'' = None
   \<and> Session_Status (sessionObj fixtureClosed 4) = SessionStatusClosed
   \<and> (\<exists>i. Session_UpdateAt (sessionObj fixtureClosed 4) = clockAt 1700000005000000000 i)
   \<and> User_Status (userObj fixtureClosed 1) = UserStatusInSession
   \<and> User_SessionID (userObj fixtureClosed 1) = ''user1_staff1_20231114221320''"
proof -
  have h: "staffs fixture ''staff1'' = Some 2"
    by (simp add: fixture_facts)
  have g: "groups fixture (Staff_GroupID (staffObj fixture 2)) = Some 0"
    by (simp add: fixture_facts)
  have s: "hasSession (staffObj fixture 2) ''user1_staff1_20231114221320''
     \<and> sessions fixture ''user1_staff1_20231114221320'' = Some 4"
    by (simp add: fixture_facts hasSession_def)
  note T = DisconnectStaff_effect [OF h, of "clockAt 1700000005000000000",
      unfolded fixtureClosed_def [symmetric]]
  from T g s have closed: "Staff_Status (staffObj fixtureClosed 2) = UserStatusOffline
     \<and> staffs fixtureClosed ''staff1'' = None
     \<and> Group_Members (groupObj fixtureClosed 0) ''staff1'' = None
     \<and> Session_Status (sessionObj fixtureClosed 4) = SessionStatusClosed
     \<and> (\<exists>i. Session_UpdateAt (sessionObj fixtureClosed 4) = clockAt 1700000005000000000 i)"
    by blast
  from T have "userObj fixtureClosed = userObj fixture"
    by blast
  then have user: "User_Status (userObj fixtureClosed 1) = UserStatusInSession
     \<and> User_SessionID (userObj fixtureClosed 1) = ''user1_staff1_20231114221320''"
    by (simp add: fixture_facts)
  from h g s closed user show ?thesis
    by blast
qed

subsection \<open>TransferSession, the successful path\<close>

text \<open>
  Claim C7, amended. When \<^verbatim>\<open>TransferSession\<close> succeeds, the session's staff id is the
  new staff id and its update time is the clock reading of the call (so it is strictly
  later than before whenever that reading is strictly later than the old update time).
  The session id is in the destination staff member's set and, unless source and
  destination are the same staff object, no longer in the set of the staff member the
  session named before. No other staff object changes and no other session id enters or
  leaves any set.
\<close>

theorem TransferSession_success_effect:
  assumes "sessions cs sessionID = Some session"
    and "staffs cs newStaffID = Some newStaff"
    and "staffs cs (Session_StaffID (sessionObj cs session)) = Some oldStaff"
  shows "fst (TransferSession now cs sessionID newStaffID) = None
     \<and> Session_StaffID (sessionObj (snd (TransferSession now cs sessionID newStaffID)) session)
         = newStaffID
     \<and> Session_UpdateAt (sessionObj (snd (TransferSession now cs sessionID newStaffID)) session)
         = now 0
     \<and> (Session_UpdateAt (sessionObj cs session) < now 0
          \<longrightarrow> Session_UpdateAt (sessionObj cs session)
              < Session_UpdateAt (sessionObj (snd (TransferSession now cs sessionID newStaffID)) session))
     \<and> hasSession (staffObj (snd (TransferSession now cs sessionID newStaffID)) newStaff) sessionID
     \<and> (oldStaff \<noteq> newStaff
          \<longrightarrow> \<not> hasSession (staffObj (snd (TransferSession now cs sessionID newStaffID)) oldStaff) sessionID)
     \<and> (\<forall>staff. staff \<noteq> oldStaff \<and> staff \<noteq> newStaff
          \<longrightarrow> staffObj (snd (TransferSession now cs sessionID newStaffID)) staff = staffObj cs staff)
     \<and> (\<forall>staff other. other \<noteq> sessionID
          \<longrightarrow> hasSession (staffObj (snd (TransferSession now cs sessionID newStaffID)) staff) other
              = hasSession (staffObj cs staff) other)
     \<and> staffs (snd (TransferSession now cs sessionID newStaffID)) = staffs cs
     \<and> sessions (snd (TransferSession now cs sessionID newStaffID)) = sessions cs"
  using assms
  by (simp add: TransferSession_def Let_def setStaff_def setSession_def
        hasSession_def update_conv' delete_conv')

text \<open>\<^verbatim>\<open>TestCustomerService_TransferSession\<close>: the fixture's session goes from
  \<^verbatim>\<open>staff1\<close> to \<^verbatim>\<open>staff2\<close>.\<close>

theorem TransferSession_success_effect_witness:
  "sessions fixture ''user1_staff1_20231114221320'' = Some 4
   \<and> staffs fixture ''staff2'' = Some 3
   \<and> staffs fixture (Session_StaffID (sessionObj fixture 4)) = Some 2
   \<and> Session_UpdateAt (sessionObj fixture 4) < clockAt 1700000003000000000 0
   \<and> (2::nat) \<noteq> 3
   \<and> fst (TransferSession (clockAt 1700000003000000000) fixture
           ''user1_staff1_20231114221320'' ''staff2'') = None
   \<and> Session_StaffID (sessionObj (snd (TransferSession (clockAt 1700000003000000000) fixture
           ''user1_staff1_20231114221320'' ''staff2'')) 4) = ''staff2''
   \<and> Session_UpdateAt (sessionObj fixture 4)
       < Session_UpdateAt (sessionObj (snd (TransferSession (clockAt 1700000003000000000) fixture
           ''user1_staff1_20231114221320'' ''staff2'')) 4)
   \<and> hasSession (staffObj (snd (TransferSession (clockAt 1700000003000000000) fixture
           ''user1_staff1_20231114221320'' ''staff2'')) 3) ''user1_staff1_20231114221320''
   \<and> \<not> hasSession (staffObj (snd (TransferSession (clockAt 1700000003000000000) fixture
           ''user1_staff1_20231114221320'' ''staff2'')) 2) ''user1_staff1_20231114221320''"
  using TransferSession_success_effect [of fixture "''user1_staff1_20231114221320''" 4
      "''staff2''" 3 2 "clockAt 1700000003000000000"]
  by (simp add: fixture_facts clockAt_def)

text \<open>
  The claim as stated fails when the session is transferred to the staff member it
  already has, by a call whose clock reading equals the session's update time: the call
  succeeds, the id stays in the set of \<^verbatim>\<open>staff1\<close>, it enters no other set, and the
  update time is what it was.
\<close>

theorem TransferSession_to_own_staff_counterexample:
  "fst (TransferSession (clockAt 1700000000000000102) fixture
          ''user1_staff1_20231114221320'' ''staff1'') = None
   \<and> staffs fixture ''staff1'' = Some 2 \<and> staffs fixture ''staff2'' = Some 3
   \<and> hasSession (staffObj fixture 2) ''user1_staff1_20231114221320''
   \<and> hasSession (staffObj (snd (TransferSession (clockAt 1700000000000000102) fixture
          ''user1_staff1_20231114221320'' ''staff1'')) 2) ''user1_staff1_20231114221320''
   \<and> \<not> hasSession (staffObj fixture 3) ''user1_staff1_20231114221320''
   \<and> \<not> hasSession (staffObj (snd (TransferSession (clockAt 1700000000000000102) fixture
          ''user1_staff1_20231114221320'' ''staff1'')) 3) ''user1_staff1_20231114221320''
   \<and> Session_UpdateAt (sessionObj (snd (TransferSession (clockAt 1700000000000000102) fixture
          ''user1_staff1_20231114221320'' ''staff1'')) 4)
       = Session_UpdateAt (sessionObj fixture 4)"
  by (simp add: TransferSession_def fixture_facts set_defs hasSession_def clockAt_def)

subsection \<open>CreateSession\<close>

lemma pairFixture_tables:
  "users pairFixture ''u1'' = Some (Suc 0)" "staffs pairFixture ''s1'' = Some 2"
  by (simp_all add: pairFixture_def eval_defs)

lemma newSessionID_contains: "sublist (userID @ ''_'' @ staffID) (newSessionID now userID staffID)"
proof -
  have "prefix (userID @ ''_'' @ staffID) (newSessionID now userID staffID)"
    by (simp add: newSessionID_def)
  then show ?thesis by (rule prefix_imp_sublist)
qed

lemma newSessionID_eq_iff:
  "newSessionID now1 userID staffID = newSessionID now2 userID staffID
     \<longleftrightarrow> Format (now1 0) = Format (now2 0)"
  by (simp add: newSessionID_def)

text \<open>
  Claim C3, amended. Two successive calls of \<^verbatim>\<open>CreateSession\<close> for a connected user
  and a connected staff member both succeed; both session ids contain the user id, an
  underscore and the staff id (for \<^verbatim>\<open>u1\<close> and \<^verbatim>\<open>s1\<close> the text \<^verbatim>\<open>u1_s1\<close>);
  both ids are in the staff member's session set and in the session table afterwards. The
  two ids differ exactly when the clock readings of the two calls print as different
  second-resolution timestamps.
\<close>

theorem createTwice_ids:
  assumes "users cs userID = Some user" and "staffs cs staffID = Some staff"
  shows "\<exists>id1 id2 cs2. createTwice now1 now2 cs userID staffID = Some (id1, id2, cs2)
     \<and> sublist (userID @ ''_'' @ staffID) id1 \<and> sublist (userID @ ''_'' @ staffID) id2
     \<and> staffs cs2 staffID = Some staff
     \<and> hasSession (staffObj cs2 staff) id1 \<and> hasSession (staffObj cs2 staff) id2
     \<and> sessions cs2 id1 \<noteq> None \<and> sessions cs2 id2 \<noteq> None
     \<and> (id1 \<noteq> id2 \<longleftrightarrow> Format (now1 0) \<noteq> Format (now2 0))"
  using assms newSessionID_contains [of userID staffID now1]
    newSessionID_contains [of userID staffID now2]
    newSessionID_eq_iff [of now1 userID staffID now2]
  by (simp add: createTwice_def CreateSession_def Let_def setStaff_def setUser_def
        hasSession_def update_conv')

text \<open>Two calls 0.9 seconds apart that fall into different seconds.\<close>

theorem createTwice_ids_witness:
  "users pairFixture ''u1'' = Some 1 \<and> staffs pairFixture ''s1'' = Some 2
   \<and> (\<exists>id1 id2 cs2.
         createTwice (clockAt 1700000000000000100) (clockAt 1700000001000000000) pairFixture
           ''u1'' ''s1'' = Some (id1, id2, cs2)
         \<and> sublist ''u1_s1'' id1 \<and> sublist ''u1_s1'' id2
         \<and> hasSession (staffObj cs2 2) id1 \<and> hasSession (staffObj cs2 2) id2
         \<and> id1 \<noteq> id2)"
proof -
  have t: "Format (clockAt 1700000000000000100 0) \<noteq> Format (clockAt 1700000001000000000 0)"
    by (simp add: clockAt_def Format_defs)
  from createTwice_ids [of pairFixture "''u1''" "Suc 0" "''s1''" 2
      "clockAt 1700000000000000100" "clockAt 1700000001000000000"] t
  show ?thesis
    by (simp add: pairFixture_tables) blast
qed

text \<open>
  The claim as stated fails for two calls within one second (here 0.9 milliseconds
  apart): both sessions get the same id.
\<close>

theorem createTwice_same_second_counterexample:
  "map_option (\<lambda>(id1, id2, cs2). id1 = id2)
     (createTwice (clockAt 1700000000000000100) (clockAt 1700000000000900000) pairFixture
        ''u1'' ''s1'') = Some True"
proof -
  have t: "Format 1700000000000000100 = Format 1700000000000900000"
    by (simp add: Format_defs)
  show ?thesis
    by (simp add: createTwice_def CreateSession_def pairFixture_tables set_defs
        newSessionID_def clockAt_def t)
qed




subsection \<open>The session-ownership invariant\<close>

lemmas inv_defs = regInv_def staffTableInv_def sessionTableInv_def heldInv_def ownerInv_def

lemma regInv_New: "regInv NewCustomerService"
  by (simp add: inv_defs NewCustomerService_def)

text \<open>A step that keeps both tables and, below \<open>nextPtr\<close>, every field the invariant
  reads.\<close>

lemma regInv_frame:
  assumes inv: "regInv cs"
    and st: "staffs cs' = staffs cs" and se: "sessions cs' = sessions cs"
    and nx: "nextPtr cs \<le> nextPtr cs'"
    and so: "\<And>q. q < nextPtr cs \<Longrightarrow> Staff_ID (staffObj cs' q) = Staff_ID (staffObj cs q)
                \<and> Staff_Sessions (staffObj cs' q) = Staff_Sessions (staffObj cs q)"
    and ss: "\<And>p. p < nextPtr cs \<Longrightarrow> Session_ID (sessionObj cs' p) = Session_ID (sessionObj cs p)
                \<and> Session_StaffID (sessionObj cs' p) = Session_StaffID (sessionObj cs p)
                \<and> Session_Status (sessionObj cs' p) = Session_Status (sessionObj cs p)"
  shows "regInv cs'"
proof -
  from inv have i1: "staffTableInv cs" and i2: "sessionTableInv cs"
    and i3: "heldInv cs" and i4: "ownerInv cs"
    by (simp_all add: regInv_def)
  have q_ok: "\<And>k q. staffs cs k = Some q \<Longrightarrow> q < nextPtr cs \<and> Staff_ID (staffObj cs q) = k"
    using i1 by (simp add: staffTableInv_def)
  have p_ok: "\<And>k p. sessions cs k = Some p \<Longrightarrow> p < nextPtr cs \<and> Session_ID (sessionObj cs p) = k"
    using i2 by (simp add: sessionTableInv_def)
  have hs: "\<And>k q sid. staffs cs k = Some q \<Longrightarrow>
      hasSession (staffObj cs' q) sid = hasSession (staffObj cs q) sid"
    using q_ok so by (simp add: hasSession_def)
  have lv: "\<And>k p. sessions cs k = Some p \<Longrightarrow>
      liveSession (sessionObj cs' p) = liveSession (sessionObj cs p)
      \<and> Session_StaffID (sessionObj cs' p) = Session_StaffID (sessionObj cs p)"
    using p_ok ss by (simp add: liveSession_def)
  have j1: "staffTableInv cs'"
    unfolding staffTableInv_def using q_ok so nx st by (metis less_le_trans)
  have j2: "sessionTableInv cs'"
    unfolding sessionTableInv_def using p_ok ss nx se by (metis less_le_trans)
  have j3: "heldInv cs'"
    unfolding heldInv_def using i3 hs st se unfolding heldInv_def by metis
  have j4: "ownerInv cs'"
    unfolding ownerInv_def
  proof (intro allI impI, elim conjE)
    fix sid p
    assume a: "sessions cs' sid = Some p" and l: "liveSession (sessionObj cs' p)"
    from a se have a': "sessions cs sid = Some p" by simp
    with l lv have l': "liveSession (sessionObj cs p)" by simp
    from i4 a' l' have
      o1: "\<exists>q. staffs cs (Session_StaffID (sessionObj cs p)) = Some q
              \<and> hasSession (staffObj cs q) sid"
      and o2: "\<forall>k q. staffs cs k = Some q \<and> hasSession (staffObj cs q) sid
              \<longrightarrow> k = Session_StaffID (sessionObj cs p)"
      unfolding ownerInv_def by blast+
    from lv[OF a'] have sid_eq: "Session_StaffID (sessionObj cs' p) = Session_StaffID (sessionObj cs p)"
      by simp
    show "(\<exists>q. staffs cs' (Session_StaffID (sessionObj cs' p)) = Some q
              \<and> hasSession (staffObj cs' q) sid)
        \<and> (\<forall>k q. staffs cs' k = Some q \<and> hasSession (staffObj cs' q) sid
              \<longrightarrow> k = Session_StaffID (sessionObj cs' p))"
      using o1 o2 hs unfolding st sid_eq by metis
  qed
  from j1 j2 j3 j4 show ?thesis by (simp add: regInv_def)
qed

lemma regInv_ConnectUser: "regInv cs \<Longrightarrow> regInv (snd (ConnectUser now cs userID name c))"
  by (erule regInv_frame) (simp_all add: ConnectUser_def Let_def)

lemma regInv_CreateGroup: "regInv cs \<Longrightarrow> regInv (snd (CreateGroup cs groupID name))"
  by (erule regInv_frame) (simp_all add: CreateGroup_def Let_def)

lemma regInv_DisconnectUser: "regInv cs \<Longrightarrow> regInv (DisconnectUser cs userID)"
  by (erule regInv_frame)
     (simp_all add: DisconnectUser_def Let_def setUser_def closeConn_def split: option.splits)

lemma regInv_SendMessage:
  "regInv cs \<Longrightarrow> regInv (snd (SendMessage now cs sessionID fromID content msgType))"
  by (erule regInv_frame)
     (simp_all add: SendMessage_def Let_def setSession_def split: option.splits)


lemma regInvD:
  assumes "regInv cs"
  shows "\<And>k q. staffs cs k = Some q \<Longrightarrow> q < nextPtr cs \<and> Staff_ID (staffObj cs q) = k"
    and "\<And>k p. sessions cs k = Some p \<Longrightarrow> p < nextPtr cs \<and> Session_ID (sessionObj cs p) = k"
    and "\<And>k q sid. staffs cs k = Some q \<Longrightarrow> hasSession (staffObj cs q) sid
           \<Longrightarrow> sessions cs sid \<noteq> None"
    and "\<And>sid p. sessions cs sid = Some p \<Longrightarrow> liveSession (sessionObj cs p)
           \<Longrightarrow> \<exists>q. staffs cs (Session_StaffID (sessionObj cs p)) = Some q
                   \<and> hasSession (staffObj cs q) sid"
    and "\<And>sid p k q. sessions cs sid = Some p \<Longrightarrow> liveSession (sessionObj cs p)
           \<Longrightarrow> staffs cs k = Some q \<Longrightarrow> hasSession (staffObj cs q) sid
           \<Longrightarrow> k = Session_StaffID (sessionObj cs p)"
  using assms unfolding inv_defs by blast+

lemma regInvI:
  assumes "\<And>k q. staffs cs k = Some q \<Longrightarrow> q < nextPtr cs \<and> Staff_ID (staffObj cs q) = k"
    and "\<And>k p. sessions cs k = Some p \<Longrightarrow> p < nextPtr cs \<and> Session_ID (sessionObj cs p) = k"
    and "\<And>k q sid. staffs cs k = Some q \<Longrightarrow> hasSession (staffObj cs q) sid
           \<Longrightarrow> sessions cs sid \<noteq> None"
    and "\<And>sid p. sessions cs sid = Some p \<Longrightarrow> liveSession (sessionObj cs p)
           \<Longrightarrow> \<exists>q. staffs cs (Session_StaffID (sessionObj cs p)) = Some q
                   \<and> hasSession (staffObj cs q) sid"
    and "\<And>sid p k q. sessions cs sid = Some p \<Longrightarrow> liveSession (sessionObj cs p)
           \<Longrightarrow> staffs cs k = Some q \<Longrightarrow> hasSession (staffObj cs q) sid
           \<Longrightarrow> k = Session_StaffID (sessionObj cs p)"
  shows "regInv cs"
  unfolding inv_defs using assms by blast

lemma regInv_ConnectStaff:
  assumes inv: "regInv cs" and fresh: "staffs cs staffID = None"
  shows "regInv (snd (ConnectStaff cs staffID name groupID c))"
proof (cases "groups cs groupID")
  case None
  with inv show ?thesis by (simp add: ConnectStaff_def)
next
  case (Some grp)
  let ?cs' = "snd (ConnectStaff cs staffID name groupID c)"
  let ?n = "nextPtr cs"
  note d = regInvD[OF inv]
  have st: "staffs ?cs' = (staffs cs)(staffID \<mapsto> ?n)"
    and se: "sessions ?cs' = sessions cs"
    and nx: "nextPtr ?cs' = Suc ?n"
    and so: "staffObj ?cs' = (staffObj cs)(?n := \<lparr>Staff_ID = staffID, Staff_Name = name,
               Staff_GroupID = groupID, Staff_Status = UserStatusOnline, Staff_Conn = c,
               Staff_Sessions = []\<rparr>)"
    and ss: "sessionObj ?cs' = sessionObj cs"
    using Some by (simp_all add: ConnectStaff_def Let_def setGroup_def)
  show ?thesis
  proof (rule regInvI)
    fix k q assume "staffs ?cs' k = Some q"
    then show "q < nextPtr ?cs' \<and> Staff_ID (staffObj ?cs' q) = k"
      using d(1)[of k q] unfolding st nx so
      by (auto simp add: less_Suc_eq split: if_splits)
  next
    fix k p assume "sessions ?cs' k = Some p"
    then show "p < nextPtr ?cs' \<and> Session_ID (sessionObj ?cs' p) = k"
      using d(2)[of k p] unfolding se nx ss by (simp add: less_Suc_eq)
  next
    fix k q sid assume "staffs ?cs' k = Some q" "hasSession (staffObj ?cs' q) sid"
    then show "sessions ?cs' sid \<noteq> None"
      using d(3)[of k q sid] d(1)[of k q] unfolding st se so
      by (auto simp add: hasSession_def split: if_splits)
  next
    fix sid p assume a: "sessions ?cs' sid = Some p" "liveSession (sessionObj ?cs' p)"
    then obtain q where q: "staffs cs (Session_StaffID (sessionObj cs p)) = Some q"
        "hasSession (staffObj cs q) sid"
      using d(4)[of sid p] unfolding se ss by blast
    with fresh have ne: "Session_StaffID (sessionObj cs p) \<noteq> staffID" by auto
    from d(1)[OF q(1)] have "q \<noteq> ?n" by simp
    with q ne show "\<exists>q. staffs ?cs' (Session_StaffID (sessionObj ?cs' p)) = Some q
                   \<and> hasSession (staffObj ?cs' q) sid"
      unfolding st so ss by simp
  next
    fix sid p k q
    assume a: "sessions ?cs' sid = Some p" "liveSession (sessionObj ?cs' p)"
      "staffs ?cs' k = Some q" "hasSession (staffObj ?cs' q) sid"
    show "k = Session_StaffID (sessionObj ?cs' p)"
    proof (cases "k = staffID")
      case True
      with a(3,4) show ?thesis unfolding st so by (simp add: hasSession_def)
    next
      case False
      with a(3) have k: "staffs cs k = Some q" unfolding st by simp
      from d(1)[OF k] have "q \<noteq> ?n" by simp
      with a(4) have "hasSession (staffObj cs q) sid" unfolding so by simp
      with d(5)[of sid p k q] a(1,2) k show ?thesis unfolding se ss by simp
    qed
  qed
qed


lemma regInv_CreateSession:
  assumes inv: "regInv cs" and fresh: "sessions cs (newSessionID now userID staffID) = None"
  shows "regInv (snd (CreateSession now cs userID staffID))"
proof (cases "users cs userID")
  case None
  with inv show ?thesis by (simp add: CreateSession_def)
next
  case (Some user)
  show ?thesis
  proof (cases "staffs cs staffID")
    case None
    with inv Some show ?thesis by (simp add: CreateSession_def)
  next
    case staff: (Some q0)
    let ?cs' = "snd (CreateSession now cs userID staffID)"
    let ?n = "nextPtr cs"
    let ?sid = "newSessionID now userID staffID"
    note d = regInvD[OF inv]
    have st: "staffs ?cs' = staffs cs"
      and se: "sessions ?cs' = (sessions cs)(?sid \<mapsto> ?n)"
      and nx: "nextPtr ?cs' = Suc ?n"
      using Some staff by (simp_all add: CreateSession_def Let_def setStaff_def setUser_def)
    have sf: "\<And>q. Staff_ID (staffObj ?cs' q) = Staff_ID (staffObj cs q)"
      and hs: "\<And>q sid. hasSession (staffObj ?cs' q) sid
          \<longleftrightarrow> (q = q0 \<and> sid = ?sid) \<or> hasSession (staffObj cs q) sid"
      using Some staff
      by (auto simp add: CreateSession_def Let_def setStaff_def setUser_def hasSession_def
            update_conv')
    have new: "Session_ID (sessionObj ?cs' ?n) = ?sid"
        "Session_StaffID (sessionObj ?cs' ?n) = staffID"
      and old: "\<And>p. p \<noteq> ?n \<Longrightarrow> sessionObj ?cs' p = sessionObj cs p"
      using Some staff by (simp_all add: CreateSession_def Let_def setStaff_def setUser_def)
    show ?thesis
    proof (rule regInvI)
      fix k q assume "staffs ?cs' k = Some q"
      then show "q < nextPtr ?cs' \<and> Staff_ID (staffObj ?cs' q) = k"
        using d(1)[of k q] unfolding st nx sf by simp
    next
      fix k p assume a: "sessions ?cs' k = Some p"
      show "p < nextPtr ?cs' \<and> Session_ID (sessionObj ?cs' p) = k"
      proof (cases "k = ?sid")
        case True
        with a have "p = ?n" unfolding se by simp
        with True new show ?thesis unfolding nx by simp
      next
        case False
        with a have k: "sessions cs k = Some p" unfolding se by simp
        from d(2)[OF k] old[of p] show ?thesis unfolding nx by simp
      qed
    next
      fix k q sid assume "staffs ?cs' k = Some q" "hasSession (staffObj ?cs' q) sid"
      then show "sessions ?cs' sid \<noteq> None"
        using d(3)[of k q sid] unfolding st se hs by auto
    next
      fix sid p assume a: "sessions ?cs' sid = Some p" "liveSession (sessionObj ?cs' p)"
      show "\<exists>q. staffs ?cs' (Session_StaffID (sessionObj ?cs' p)) = Some q
                   \<and> hasSession (staffObj ?cs' q) sid"
      proof (cases "sid = ?sid")
        case True
        with a have "p = ?n" unfolding se by simp
        with True new staff show ?thesis unfolding st hs by simp
      next
        case False
        with a have k: "sessions cs sid = Some p" unfolding se by simp
        from d(2)[OF k] have pn: "p \<noteq> ?n" by simp
        from d(4)[OF k] a(2) old[OF pn] show ?thesis unfolding st hs by auto
      qed
    next
      fix sid p k q
      assume a: "sessions ?cs' sid = Some p" "liveSession (sessionObj ?cs' p)"
        "staffs ?cs' k = Some q" "hasSession (staffObj ?cs' q) sid"
      from a(3) have kq: "staffs cs k = Some q" unfolding st .
      show "k = Session_StaffID (sessionObj ?cs' p)"
      proof (cases "sid = ?sid")
        case True
        with a have pn: "p = ?n" unfolding se by simp
        from a(4) True d(3)[OF kq, of ?sid] fresh have "q = q0" unfolding hs by auto
        with d(1)[OF kq] d(1)[OF staff] have "k = staffID" by simp
        with pn new show ?thesis by simp
      next
        case False
        with a have s: "sessions cs sid = Some p" unfolding se by simp
        from d(2)[OF s] have pn: "p \<noteq> ?n" by simp
        from a(4) False have h: "hasSession (staffObj cs q) sid" unfolding hs by simp
        from d(5)[OF s _ kq h] a(2) old[OF pn] show ?thesis by simp
      qed
    qed
  qed
qed

lemma regInv_TransferSession:
  assumes inv: "regInv cs"
  shows "regInv (snd (TransferSession now cs sessionID newStaffID))"
proof (cases "fst (TransferSession now cs sessionID newStaffID)")
  case (Some e)
  then have "snd (TransferSession now cs sessionID newStaffID) = cs"
    by (auto simp add: TransferSession_def Let_def split: option.splits)
  with inv show ?thesis by simp
next
  case None
  then obtain p qn qo where p: "sessions cs sessionID = Some p"
    and qn: "staffs cs newStaffID = Some qn"
    and qo: "staffs cs (Session_StaffID (sessionObj cs p)) = Some qo"
    by (auto simp add: TransferSession_def Let_def split: option.splits)
  let ?cs' = "snd (TransferSession now cs sessionID newStaffID)"
  note d = regInvD[OF inv]
  have st: "staffs ?cs' = staffs cs" and se: "sessions ?cs' = sessions cs"
    and nx: "nextPtr ?cs' = nextPtr cs"
    using p qn qo by (simp_all add: TransferSession_def Let_def setStaff_def setSession_def)
  have sf: "\<And>q. Staff_ID (staffObj ?cs' q) = Staff_ID (staffObj cs q)"
    and hs: "\<And>q sid. hasSession (staffObj ?cs' q) sid
        \<longleftrightarrow> (if sid = sessionID then q = qn \<or> (q \<noteq> qo \<and> hasSession (staffObj cs q) sid)
             else hasSession (staffObj cs q) sid)"
    using p qn qo
    by (auto simp add: TransferSession_def Let_def setStaff_def setSession_def hasSession_def
          update_conv' delete_conv')
  have tp: "Session_ID (sessionObj ?cs' p) = Session_ID (sessionObj cs p)"
      "Session_StaffID (sessionObj ?cs' p) = newStaffID"
      "liveSession (sessionObj ?cs' p) = liveSession (sessionObj cs p)"
    and other: "\<And>p'. p' \<noteq> p \<Longrightarrow> sessionObj ?cs' p' = sessionObj cs p'"
    using p qn qo
    by (simp_all add: TransferSession_def Let_def setStaff_def setSession_def liveSession_def)
  have inj: "\<And>sid p'. sessions cs sid = Some p' \<Longrightarrow> sid \<noteq> sessionID \<Longrightarrow> p' \<noteq> p"
    using d(2)[OF p] d(2) by blast
  show ?thesis
  proof (rule regInvI)
    fix k q assume "staffs ?cs' k = Some q"
    then show "q < nextPtr ?cs' \<and> Staff_ID (staffObj ?cs' q) = k"
      using d(1)[of k q] unfolding st nx sf by simp
  next
    fix k p' assume a: "sessions ?cs' k = Some p'"
    then have k: "sessions cs k = Some p'" unfolding se .
    show "p' < nextPtr ?cs' \<and> Session_ID (sessionObj ?cs' p') = k"
      using d(2)[OF k] tp(1) other[of p'] unfolding nx by (cases "p' = p") simp_all
  next
    fix k q sid assume "staffs ?cs' k = Some q" "hasSession (staffObj ?cs' q) sid"
    then show "sessions ?cs' sid \<noteq> None"
      using d(3)[of k q sid] p unfolding st se hs by (auto split: if_splits)
  next
    fix sid p' assume a: "sessions ?cs' sid = Some p'" "liveSession (sessionObj ?cs' p')"
    from a(1) have s: "sessions cs sid = Some p'" unfolding se .
    show "\<exists>q. staffs ?cs' (Session_StaffID (sessionObj ?cs' p')) = Some q
                   \<and> hasSession (staffObj ?cs' q) sid"
    proof (cases "sid = sessionID")
      case True
      with s p have "p' = p" by simp
      with True tp(2) qn show ?thesis unfolding st hs by simp
    next
      case False
      from inj[OF s False] have pp: "sessionObj ?cs' p' = sessionObj cs p'" by (rule other)
      from d(4)[OF s] a(2) False show ?thesis unfolding st hs pp by simp
    qed
  next
    fix sid p' k q
    assume a: "sessions ?cs' sid = Some p'" "liveSession (sessionObj ?cs' p')"
      "staffs ?cs' k = Some q" "hasSession (staffObj ?cs' q) sid"
    from a(1) have s: "sessions cs sid = Some p'" unfolding se .
    from a(3) have kq: "staffs cs k = Some q" unfolding st .
    show "k = Session_StaffID (sessionObj ?cs' p')"
    proof (cases "sid = sessionID")
      case True
      with s p have pp: "p' = p" by simp
      from a(2) pp tp(3) have live: "liveSession (sessionObj cs p)" by simp
      from a(4) True have "q = qn \<or> (q \<noteq> qo \<and> hasSession (staffObj cs q) sessionID)"
        unfolding hs by simp
      then show ?thesis
      proof
        assume "q = qn"
        with d(1)[OF kq] d(1)[OF qn] have "k = newStaffID" by simp
        with pp tp(2) show ?thesis by simp
      next
        assume b: "q \<noteq> qo \<and> hasSession (staffObj cs q) sessionID"
        with d(5)[OF p live kq] have "k = Session_StaffID (sessionObj cs p)" by simp
        with kq qo b show ?thesis by simp
      qed
    next
      case False
      from inj[OF s False] have pp: "sessionObj ?cs' p' = sessionObj cs p'" by (rule other)
      from a(4) False have h: "hasSession (staffObj cs q) sid" unfolding hs by simp
      from d(5)[OF s _ kq h] a(2) show ?thesis unfolding pp by simp
    qed
  qed
qed


lemma closeSessions_fields:
  "Session_ID (sessionObj (closeSessions now i al cs) p) = Session_ID (sessionObj cs p)
   \<and> Session_UserID (sessionObj (closeSessions now i al cs) p) = Session_UserID (sessionObj cs p)
   \<and> Session_StaffID (sessionObj (closeSessions now i al cs) p)
       = Session_StaffID (sessionObj cs p)
   \<and> (Session_Status (sessionObj (closeSessions now i al cs) p) = Session_Status (sessionObj cs p)
        \<or> Session_Status (sessionObj (closeSessions now i al cs) p) = SessionStatusClosed)"
proof (induction now i al cs rule: closeSessions.induct)
  case (1 now i cs)
  show ?case by simp
next
  case (2 now i sessionID uu rest cs)
  show ?case
  proof (cases "sessions cs sessionID")
    case None
    with 2(1) show ?thesis by simp
  next
    case (Some session)
    from 2(2)[OF Some refl refl] Some show ?thesis
      by (cases "session = p") (auto simp add: Let_def setSession_def)
  qed
qed

lemma regInv_DisconnectStaff:
  assumes inv: "regInv cs"
  shows "regInv (DisconnectStaff now cs staffID)"
proof (cases "staffs cs staffID")
  case None
  with inv show ?thesis by (simp add: DisconnectStaff_def)
next
  case (Some q0)
  let ?cs' = "DisconnectStaff now cs staffID"
  let ?cs1 = "setStaff q0 (\<lambda>s. s\<lparr>Staff_Status := UserStatusOffline\<rparr>) cs"
  let ?cs2 = "closeConn (Staff_Conn (staffObj ?cs1 q0)) ?cs1"
  let ?cs3 = "case groups ?cs2 (Staff_GroupID (staffObj ?cs2 q0)) of
                None \<Rightarrow> ?cs2
              | Some grp \<Rightarrow> setGroup grp
                  (\<lambda>g. g\<lparr>Group_Members := (Group_Members g)(staffID := None)\<rparr>) ?cs2"
  let ?al = "Staff_Sessions (staffObj ?cs3 q0)"
  let ?cs4 = "closeSessions now 0 ?al ?cs3"
  note d = regInvD[OF inv]
  have D: "?cs' = ?cs4\<lparr>staffs := (staffs ?cs4)(staffID := None)\<rparr>"
    using Some by (simp add: DisconnectStaff_def Let_def)
  have cs3: "staffObj ?cs3 = (staffObj cs)(q0 := (staffObj cs q0)\<lparr>Staff_Status := UserStatusOffline\<rparr>)"
    "sessions ?cs3 = sessions cs" "staffs ?cs3 = staffs cs" "nextPtr ?cs3 = nextPtr cs"
    "sessionObj ?cs3 = sessionObj cs"
    by (simp_all add: setStaff_def setGroup_def closeConn_def split: option.splits)
  note fr = closeSessions_frame[of now 0 ?al ?cs3]
  have al: "?al = Staff_Sessions (staffObj cs q0)"
    by (simp add: cs3(1))
  have st: "staffs ?cs' = (staffs cs)(staffID := None)"
    and se: "sessions ?cs' = sessions cs" and nx: "nextPtr ?cs' = nextPtr cs"
    unfolding D using fr cs3 by simp_all
  have sf: "\<And>q. Staff_ID (staffObj ?cs' q) = Staff_ID (staffObj cs q)"
    and hs: "\<And>q sid. hasSession (staffObj ?cs' q) sid = hasSession (staffObj cs q) sid"
    unfolding D using fr cs3(1) by (simp_all add: hasSession_def)
  have so: "sessionObj ?cs' = sessionObj ?cs4"
    unfolding D by simp
  note fl = closeSessions_fields[of now 0 ?al ?cs3, unfolded cs3(5), folded so]
  have sid: "\<And>p. Session_ID (sessionObj ?cs' p) = Session_ID (sessionObj cs p)"
    and sst: "\<And>p. Session_StaffID (sessionObj ?cs' p) = Session_StaffID (sessionObj cs p)"
    by (simp_all add: fl)
  have live: "\<And>p. liveSession (sessionObj ?cs' p) \<Longrightarrow> liveSession (sessionObj cs p)"
  proof -
    fix p assume "liveSession (sessionObj ?cs' p)"
    with fl[of p] show "liveSession (sessionObj cs p)"
      by (auto simp add: liveSession_def)
  qed
  have closed: "\<And>sid p. hasSession (staffObj cs q0) sid \<Longrightarrow> sessions cs sid = Some p
      \<Longrightarrow> \<not> liveSession (sessionObj ?cs' p)"
  proof -
    fix sid p assume h: "hasSession (staffObj cs q0) sid" and s: "sessions cs sid = Some p"
    from h have mem: "sid \<in> fst ` set ?al" by (simp add: hasSession_iff al)
    from s have look: "sessions ?cs3 sid = Some p" by (simp add: cs3(2))
    from closeSessions_closes[OF mem look, of now 0]
    show "\<not> liveSession (sessionObj ?cs' p)"
      unfolding so by (simp add: liveSession_def)
  qed
  show ?thesis
  proof (rule regInvI)
    fix k q assume "staffs ?cs' k = Some q"
    then show "q < nextPtr ?cs' \<and> Staff_ID (staffObj ?cs' q) = k"
      using d(1)[of k q] unfolding st nx sf by (simp split: if_splits)
  next
    fix k p assume "sessions ?cs' k = Some p"
    then show "p < nextPtr ?cs' \<and> Session_ID (sessionObj ?cs' p) = k"
      using d(2)[of k p] unfolding se nx sid by simp
  next
    fix k q sid assume "staffs ?cs' k = Some q" "hasSession (staffObj ?cs' q) sid"
    then show "sessions ?cs' sid \<noteq> None"
      using d(3)[of k q sid] unfolding st se hs by (simp split: if_splits)
  next
    fix sid p assume a: "sessions ?cs' sid = Some p" "liveSession (sessionObj ?cs' p)"
    from a(1) have s: "sessions cs sid = Some p" unfolding se .
    from d(4)[OF s live[OF a(2)]] obtain q
      where q: "staffs cs (Session_StaffID (sessionObj cs p)) = Some q"
        "hasSession (staffObj cs q) sid" by blast
    have "Session_StaffID (sessionObj cs p) \<noteq> staffID"
    proof
      assume "Session_StaffID (sessionObj cs p) = staffID"
      with q Some have "hasSession (staffObj cs q0) sid" by simp
      from closed[OF this s] a(2) show False by simp
    qed
    with q show "\<exists>q. staffs ?cs' (Session_StaffID (sessionObj ?cs' p)) = Some q
                   \<and> hasSession (staffObj ?cs' q) sid"
      unfolding st hs sst by simp
  next
    fix sid p k q
    assume a: "sessions ?cs' sid = Some p" "liveSession (sessionObj ?cs' p)"
      "staffs ?cs' k = Some q" "hasSession (staffObj ?cs' q) sid"
    from a(1) have s: "sessions cs sid = Some p" unfolding se .
    from a(3) have kq: "staffs cs k = Some q" unfolding st by (simp split: if_splits)
    from a(4) have h: "hasSession (staffObj cs q) sid" unfolding hs .
    from d(5)[OF s live[OF a(2)] kq h] show "k = Session_StaffID (sessionObj ?cs' p)"
      unfolding sst .
  qed
qed

lemma regInv_step: "regInv cs \<Longrightarrow> allowed cs x \<Longrightarrow> regInv (step cs x)"
  by (cases x)
     (simp_all add: regInv_ConnectUser regInv_ConnectStaff regInv_CreateGroup
        regInv_CreateSession regInv_TransferSession regInv_SendMessage regInv_DisconnectUser
        regInv_DisconnectStaff)

lemma regInv_run: "regInv cs \<Longrightarrow> admissible cs ops \<Longrightarrow> regInv (run cs ops)"
  by (induction ops arbitrary: cs) (simp_all add: run_def regInv_step)

lemma regInv_sessionOwnerInv:
  assumes inv: "regInv cs"
  shows "sessionOwnerInv cs"
  unfolding sessionOwnerInv_def
proof (intro allI impI, elim conjE)
  fix sid p
  assume s: "sessions cs sid = Some p" and l: "liveSession (sessionObj cs p)"
  note d = regInvD[OF inv]
  from d(2)[OF s] have id: "Session_ID (sessionObj cs p) = sid" by simp
  from d(4)[OF s l] obtain q where q: "staffs cs (Session_StaffID (sessionObj cs p)) = Some q"
      "hasSession (staffObj cs q) sid" by blast
  have uniq: "\<And>q'. (\<exists>k. staffs cs k = Some q') \<and> hasSession (staffObj cs q') sid \<Longrightarrow> q' = q"
    using d(5)[OF s l] q(1) by auto
  have own: "\<And>q'. (\<exists>k. staffs cs k = Some q') \<and> hasSession (staffObj cs q') sid
      \<Longrightarrow> Staff_ID (staffObj cs q') = Session_StaffID (sessionObj cs p)"
    using d(5)[OF s l] d(1) by blast
  show "(\<exists>!staff. (\<exists>staffID. staffs cs staffID = Some staff)
                    \<and> hasSession (staffObj cs staff) (Session_ID (sessionObj cs p)))
          \<and> (\<forall>staff. (\<exists>staffID. staffs cs staffID = Some staff)
                    \<and> hasSession (staffObj cs staff) (Session_ID (sessionObj cs p))
                 \<longrightarrow> Staff_ID (staffObj cs staff) = Session_StaffID (sessionObj cs p))"
    unfolding id using q uniq own by blast
qed

text \<open>
  Claim C1, amended. After every sequence of registry operations, started in the empty
  registry, in which no \<^verbatim>\<open>ConnectStaff\<close> call uses the id of a staff member that is
  connected at that moment and no \<^verbatim>\<open>CreateSession\<close> call generates a session id that
  is already in the session table: for every session of the table whose status is Active
  or Waiting, exactly one staff member's session set contains the session's id, and that
  staff member's id equals the session's staff id.
\<close>

theorem sessionOwnerInv_admissible:
  "admissible NewCustomerService ops \<Longrightarrow> sessionOwnerInv (run NewCustomerService ops)"
  by (rule regInv_sessionOwnerInv) (rule regInv_run[OF regInv_New])


text \<open>A sequence with all eight operations is admissible.\<close>

theorem sessionOwnerInv_admissible_witness:
  "admissible NewCustomerService scenarioOps
   \<and> sessionOwnerInv (run NewCustomerService scenarioOps)"
proof -
  have a: "admissible NewCustomerService scenarioOps"
    by (simp add: scenarioOps_def fixtureOps_def method_defs NewCustomerService_def Let_def
          clockAt_def Format_fixture)
  from sessionOwnerInv_admissible [OF a] a show ?thesis by simp
qed

lemma run_snoc: "run cs (ops @ [x]) = step (run cs ops) x"
  by (simp add: run_def)

text \<open>
  The claim as stated fails when \<^verbatim>\<open>staff1\<close> connects again while its session is
  Active: the new staff object replaces the old one in the staff table and has an empty
  session set, so no staff member holds the Active session.
\<close>

theorem staff_reconnect_counterexample:
  "sessions (run NewCustomerService reconnectOps) ''user1_staff1_20231114221320'' = Some 4
   \<and> Session_ID (sessionObj (run NewCustomerService reconnectOps) 4)
       = ''user1_staff1_20231114221320''
   \<and> Session_Status (sessionObj (run NewCustomerService reconnectOps) 4) = SessionStatusActive
   \<and> \<not> sessionOwnerInv (run NewCustomerService reconnectOps)"
proof -
  let ?cs = "run NewCustomerService reconnectOps"
  have cs: "?cs = snd (ConnectStaff fixture ''staff1'' ''TestStaff1'' ''group1'' (Some 3))"
    by (simp add: reconnectOps_def run_snoc fixture_def)
  have tab: "staffs fixture = [''staff1'' \<mapsto> 2, ''staff2'' \<mapsto> 3]"
    by (simp add: fixture_def eval_defs numeral_2_eq_2 numeral_3_eq_3)
  have s: "sessions ?cs ''user1_staff1_20231114221320'' = Some 4"
    and o: "sessionObj ?cs 4 = sessionObj fixture 4"
    and e: "Staff_Sessions (staffObj ?cs 5) = []" "Staff_Sessions (staffObj ?cs 3) = []"
    unfolding cs
    by (simp_all add: ConnectStaff_def fixture_facts set_defs)
  have t: "\<And>k q. staffs ?cs k = Some q \<Longrightarrow> q = 5 \<or> q = 3"
    unfolding cs
    by (simp add: ConnectStaff_def fixture_facts set_defs tab split: if_splits)
  have none: "\<And>q. (\<exists>k. staffs ?cs k = Some q)
      \<Longrightarrow> \<not> hasSession (staffObj ?cs q) ''user1_staff1_20231114221320''"
  proof -
    fix q assume "\<exists>k. staffs ?cs k = Some q"
    then obtain k where "staffs ?cs k = Some q" ..
    from t[OF this] e show "\<not> hasSession (staffObj ?cs q) ''user1_staff1_20231114221320''"
      by (auto simp add: hasSession_def)
  qed
  have live: "liveSession (sessionObj ?cs 4)"
    and id: "Session_ID (sessionObj ?cs 4) = ''user1_staff1_20231114221320''"
    and act: "Session_Status (sessionObj ?cs 4) = SessionStatusActive"
    unfolding o by (simp_all add: fixture_facts liveSession_def)
  have "\<not> sessionOwnerInv ?cs"
  proof
    assume "sessionOwnerInv ?cs"
    with s live id obtain q where "(\<exists>k. staffs ?cs k = Some q)"
      "hasSession (staffObj ?cs q) ''user1_staff1_20231114221320''"
      unfolding sessionOwnerInv_def by (metis (no_types, lifting))
    with none show False by blast
  qed
  with s id act show ?thesis by simp
qed


text \<open>
  The restriction on \<^verbatim>\<open>CreateSession\<close> is needed as well: when a call generates an id
  that is already in the session table, the id can end up in the session sets of two staff
  members.
\<close>

lemma id_collision_two_holders:
  "\<not> sessionOwnerInv (run NewCustomerService collisionOps)"
proof -
  let ?cs = "run NewCustomerService collisionOps"
  let ?sid = "''a_b_c_20231114221320''"
  have f: "Format 1700000000000000100 = ''20231114221320''"
    "Format 1700000000000900000 = ''20231114221320''"
    by (simp_all add: Format_defs)
  have s: "sessions ?cs ?sid = Some 6"
    and o: "Session_ID (sessionObj ?cs 6) = ?sid"
      "Session_Status (sessionObj ?cs 6) = SessionStatusActive"
    and t: "staffs ?cs ''c'' = Some 3" "staffs ?cs ''b_c'' = Some 4"
    and h: "hasSession (staffObj ?cs 3) ?sid" "hasSession (staffObj ?cs 4) ?sid"
    by (simp_all add: collisionOps_def run_def method_defs NewCustomerService_def Let_def
          clockAt_def f hasSession_def)
  show ?thesis
  proof
    assume "sessionOwnerInv ?cs"
    with s o have "\<exists>!staff. (\<exists>staffID. staffs ?cs staffID = Some staff)
        \<and> hasSession (staffObj ?cs staff) ?sid"
      unfolding sessionOwnerInv_def liveSession_def by (metis (no_types, lifting))
    with t h have "(3::nat) = 4" by blast
    then show False by simp
  qed
qed

subsection \<open>Closed sessions\<close>

lemma DisconnectStaff_session_fields:
  "nextPtr (DisconnectStaff now cs staffID) = nextPtr cs
   \<and> Session_UserID (sessionObj (DisconnectStaff now cs staffID) p) = Session_UserID (sessionObj cs p)
   \<and> Session_StaffID (sessionObj (DisconnectStaff now cs staffID) p)
       = Session_StaffID (sessionObj cs p)
   \<and> (Session_Status (sessionObj cs p) = SessionStatusClosed
        \<longrightarrow> Session_Status (sessionObj (DisconnectStaff now cs staffID) p) = SessionStatusClosed)"
proof (cases "staffs cs staffID")
  case None
  then show ?thesis by (simp add: DisconnectStaff_def)
next
  case (Some q0)
  let ?cs1 = "setStaff q0 (\<lambda>s. s\<lparr>Staff_Status := UserStatusOffline\<rparr>) cs"
  let ?cs2 = "closeConn (Staff_Conn (staffObj ?cs1 q0)) ?cs1"
  let ?cs3 = "case groups ?cs2 (Staff_GroupID (staffObj ?cs2 q0)) of
                None \<Rightarrow> ?cs2
              | Some grp \<Rightarrow> setGroup grp
                  (\<lambda>g. g\<lparr>Group_Members := (Group_Members g)(staffID := None)\<rparr>) ?cs2"
  let ?al = "Staff_Sessions (staffObj ?cs3 q0)"
  let ?cs4 = "closeSessions now 0 ?al ?cs3"
  have D: "DisconnectStaff now cs staffID = ?cs4\<lparr>staffs := (staffs ?cs4)(staffID := None)\<rparr>"
    using Some by (simp add: DisconnectStaff_def Let_def)
  have cs3: "nextPtr ?cs3 = nextPtr cs" "sessionObj ?cs3 = sessionObj cs"
    by (simp_all add: setStaff_def setGroup_def closeConn_def split: option.splits)
  from closeSessions_frame[of now 0 ?al ?cs3] closeSessions_fields[of now 0 ?al ?cs3 p]
  show ?thesis
    unfolding D cs3 by auto
qed

lemma step_closed_session:
  assumes "p < nextPtr cs"
  shows "nextPtr cs \<le> nextPtr (step cs x)
     \<and> Session_UserID (sessionObj (step cs x) p) = Session_UserID (sessionObj cs p)
     \<and> (Session_Status (sessionObj cs p) = SessionStatusClosed
          \<longrightarrow> Session_Status (sessionObj (step cs x) p) = SessionStatusClosed)
     \<and> (\<not> isTransfer x
          \<longrightarrow> Session_StaffID (sessionObj (step cs x) p) = Session_StaffID (sessionObj cs p))"
proof (cases x)
  case (OpDisconnectStaff now staffID)
  with DisconnectStaff_session_fields[of now cs staffID p] show ?thesis by simp
qed (use assms in \<open>auto simp add: method_defs Let_def split: option.splits\<close>)

text \<open>
  Claim C2, amended. For an allocated session object whose status is Closed, no sequence
  of registry operations changes its status or its user id, and its staff id is unchanged
  by every sequence without \<^verbatim>\<open>TransferSession\<close>. (\<^verbatim>\<open>TransferSession\<close> never reads the status;
  it re-assigns a Closed session like any other.)
\<close>

theorem Closed_is_terminal_for_status_and_user:
  assumes "p < nextPtr cs" and "Session_Status (sessionObj cs p) = SessionStatusClosed"
  shows "Session_Status (sessionObj (run cs ops) p) = SessionStatusClosed
     \<and> Session_UserID (sessionObj (run cs ops) p) = Session_UserID (sessionObj cs p)
     \<and> ((\<forall>x \<in> set ops. \<not> isTransfer x)
          \<longrightarrow> Session_StaffID (sessionObj (run cs ops) p) = Session_StaffID (sessionObj cs p))"
  using assms
proof (induction ops arbitrary: cs)
  case Nil
  then show ?case by (simp add: run_def)
next
  case (Cons x xs)
  note s = step_closed_session[OF Cons.prems(1), of x]
  from s Cons.prems have a: "p < nextPtr (step cs x)"
    and b: "Session_Status (sessionObj (step cs x) p) = SessionStatusClosed"
    by auto
  have r: "run cs (x # xs) = run (step cs x) xs"
    by (simp add: run_def)
  from Cons.IH[OF a b] s show ?case
    unfolding r by auto
qed


lemma fixtureClosed_nextPtr: "nextPtr fixtureClosed = 5"
  by (simp add: fixtureClosed_def DisconnectStaff_session_fields fixture_facts)

text \<open>The closed session of the closed fixture, through a reconnect of its staff member,
  a message, a new session of its user and another disconnect.\<close>

theorem Closed_is_terminal_for_status_and_user_witness:
  "4 < nextPtr fixtureClosed
   \<and> Session_Status (sessionObj fixtureClosed 4) = SessionStatusClosed
   \<and> Session_Status (sessionObj (run fixtureClosed afterClosureOps) 4) = SessionStatusClosed
   \<and> Session_UserID (sessionObj (run fixtureClosed afterClosureOps) 4) = ''user1''
   \<and> Session_StaffID (sessionObj (run fixtureClosed afterClosureOps) 4) = ''staff1''"
proof -
  have a: "4 < nextPtr fixtureClosed"
    by (simp add: fixtureClosed_nextPtr)
  have b: "Session_Status (sessionObj fixtureClosed 4) = SessionStatusClosed"
    by (simp add: fixtureClosed_facts)
  have c: "\<forall>x \<in> set afterClosureOps. \<not> isTransfer x"
    by (simp add: afterClosureOps_def)
  from Closed_is_terminal_for_status_and_user [OF a b, of afterClosureOps] a b c
  show ?thesis
    by (simp add: fixtureClosed_facts)
qed

lemma fixtureReconnected_eq:
  "fixtureReconnected =
     snd (ConnectStaff fixtureClosed ''staff1'' ''TestStaff1'' ''group1'' (Some 3))"
  by (simp add: fixtureReconnected_def fixtureClosed_def fixture_def run_def)

lemma fixtureClosed_groups: "groups fixtureClosed ''group1'' = Some 0"
  by (simp add: fixtureClosed_def DisconnectStaff_def fixture_facts set_defs closeSessions_frame)

text \<open>
  The claim as stated fails for \<^verbatim>\<open>TransferSession\<close>: after \<^verbatim>\<open>staff1\<close> has
  disconnected (closing the session) and connected again, a transfer of the Closed session
  to \<^verbatim>\<open>staff2\<close> succeeds and changes the session's staff id.
\<close>

theorem Closed_session_transferred_counterexample:
  "Session_Status (sessionObj fixtureReconnected 4) = SessionStatusClosed
   \<and> Session_StaffID (sessionObj fixtureReconnected 4) = ''staff1''
   \<and> fst (TransferSession (clockAt 1700000006000000000) fixtureReconnected
           ''user1_staff1_20231114221320'' ''staff2'') = None
   \<and> Session_Status (sessionObj (snd (TransferSession (clockAt 1700000006000000000)
           fixtureReconnected ''user1_staff1_20231114221320'' ''staff2'')) 4)
       = SessionStatusClosed
   \<and> Session_StaffID (sessionObj (snd (TransferSession (clockAt 1700000006000000000)
           fixtureReconnected ''user1_staff1_20231114221320'' ''staff2'')) 4) = ''staff2''"
proof -
  have s: "sessions fixtureReconnected ''user1_staff1_20231114221320'' = Some 4"
    and o: "sessionObj fixtureReconnected 4 = sessionObj fixtureClosed 4"
    and t: "staffs fixtureReconnected ''staff1'' = Some 5"
      "staffs fixtureReconnected ''staff2'' = Some 3"
    unfolding fixtureReconnected_eq
    by (simp_all add: ConnectStaff_def fixtureClosed_groups fixtureClosed_nextPtr
          fixtureClosed_facts fixture_facts set_defs)
  show ?thesis
    by (simp add: TransferSession_def s o t fixtureClosed_facts set_defs)
qed

end
